theory Spec2Isabelle
  imports Complex_Main "HOL-Library.Word" "HOL-Library.Log_Nat"
begin

text \<open>
  The package \<open>storm\<close>: \<open>Insert\<close>, \<open>Update\<close> and \<open>Delete\<close> of \<open>storm.go\<close>, and \<open>From\<close>, \<open>Where\<close>,
  \<open>Limit\<close>, \<open>First\<close>, \<open>Select\<close>, \<open>Paginate\<close> and \<open>setFieldValue\<close> of \<open>query_builder.go\<close>.

  The program works by reflection on a pointer to a struct (or to a slice of structs) and
  through a database handle. Here a struct is the list of its fields with their values,
  the handle is a record of functions that answer the calls, and every operation returns
  the calls it made together with what it returns or leaves in its destination. A panic
  is a result like an error. The platform is one with 64-bit \<open>int\<close>.
\<close>

section \<open>What the program runs on\<close>

text \<open>
  A \<open>float64\<close> or \<open>float32\<close> is a rational (every finite floating-point number is one),
  an infinity or NaN. Negative zero is identified with zero.
\<close>

datatype float = Finite rat | PosInf | NegInf | NaN

text \<open>
  What the repository leaves to Go and its library is a parameter of the model, a
  \<open>platform\<close>:
  \<^item> \<open>unicode_lower s\<close> is \<open>strings.Map(unicode.ToLower, s)\<close>, the lower-casing by the case
    tables of Unicode, which \<open>strings.ToLower\<close> falls back on for a string that is not
    pure ASCII;
  \<^item> \<open>int64_out_of_range x\<close> and \<open>uint64_out_of_range x\<close> are what the conversions
    \<open>int64(x)\<close> and \<open>uint64(x)\<close> of a \<open>float64\<close> give where the integer type cannot hold
    the result, which Go leaves to the implementation.
  Every theorem holds for every platform.
\<close>

record platform =
  unicode_lower :: "string \<Rightarrow> string"
  int64_out_of_range :: "float \<Rightarrow> 64 word"
  uint64_out_of_range :: "float \<Rightarrow> 64 word"

section \<open>Strings: the functions of Go's strings and fmt packages that storm calls\<close>

text \<open>
  A Go string is a sequence of bytes, here a \<^typ>\<open>string\<close>. \<open>strings.ToLower\<close> has two
  paths: a string of ASCII bytes only (none with the high bit) has its letters \<open>A\<close> to \<open>Z\<close>
  mapped to \<open>a\<close> to \<open>z\<close>; any other string is lower-cased by the case tables of Unicode.
\<close>

definition lower_char :: "char \<Rightarrow> char" where
  "lower_char c =
     (case map_of (zip ''ABCDEFGHIJKLMNOPQRSTUVWXYZ'' ''abcdefghijklmnopqrstuvwxyz'') c of
        None \<Rightarrow> c
      | Some l \<Rightarrow> l)"

definition isASCII :: "string \<Rightarrow> bool" where
  "isASCII s = list_all (\<lambda>c. \<not> digit7 c) s"

definition ToLower :: "platform \<Rightarrow> string \<Rightarrow> string" where
  "ToLower pf s = (if isASCII s then map lower_char s else unicode_lower pf s)"

fun HasPrefix :: "string \<Rightarrow> string \<Rightarrow> bool" where
  "HasPrefix s [] = True"
| "HasPrefix [] (p # ps) = False"
| "HasPrefix (c # s) (p # ps) = (c = p \<and> HasPrefix s ps)"

text \<open>\<open>strings.Contains(s, substr)\<close>: \<open>substr\<close> occurs in \<open>s\<close> as a contiguous block.\<close>

fun Contains :: "string \<Rightarrow> string \<Rightarrow> bool" where
  "Contains [] substr = (substr = [])"
| "Contains (c # s) substr = (HasPrefix (c # s) substr \<or> Contains s substr)"

text \<open>
  \<open>strings.Split(s, sep)\<close> for a separator of one byte (storm only splits at \<open>":"\<close>;
  the directives of a tag are its pieces at \<open>","\<close>): the pieces between the separators, one
  more than there are separators.
\<close>

fun Split :: "string \<Rightarrow> char \<Rightarrow> string list" where
  "Split [] sep = [[]]"
| "Split (c # s) sep =
     (if c = sep then [] # Split s sep
      else (case Split s sep of [] \<Rightarrow> [[c]] | p # ps \<Rightarrow> (c # p) # ps))"

fun Join :: "string list \<Rightarrow> string \<Rightarrow> string" where
  "Join [] sep = []"
| "Join [x] sep = x"
| "Join (x # y # zs) sep = x @ sep @ Join (y # zs) sep"

text \<open>The verb \<open>%d\<close> of \<open>fmt.Sprintf\<close>: an integer in decimal.\<close>

definition digit_char :: "nat \<Rightarrow> char" where
  "digit_char n = ''0123456789'' ! n"

fun show_nat :: "nat \<Rightarrow> string" where
  "show_nat n = (if n < 10 then [digit_char n] else show_nat (n div 10) @ [digit_char (n mod 10)])"

declare show_nat.simps [simp del]

definition show_int :: "int \<Rightarrow> string" where
  "show_int i = (if i < 0 then CHR ''-'' # show_nat (nat (- i)) else show_nat (nat i))"

section \<open>Go values and types\<close>

text \<open>
  The types a field or a value of a row can have: the predeclared boolean, numeric and
  string types, \<open>[]byte\<close>, the empty interface, and any other defined type (a struct type
  such as \<open>time.Time\<close>), which is known by its name only. \<open>int\<close> and \<open>uint\<close> are 64 bits
  wide. Defined types over a basic type and embedded structs are outside the model.
\<close>

datatype gotype =
    TBool
  | TInt | TInt8 | TInt16 | TInt32 | TInt64
  | TUint | TUint8 | TUint16 | TUint32 | TUint64
  | TFloat32 | TFloat64
  | TString | TBytes | TAny | TOther string

datatype kind =
    KBool
  | KInt | KInt8 | KInt16 | KInt32 | KInt64
  | KUint | KUint8 | KUint16 | KUint32 | KUint64
  | KFloat32 | KFloat64
  | KString | KSlice | KInterface | KStruct

text \<open>
  A value: what an \<open>interface{}\<close> holds, and what a field holds. \<open>VNil\<close> is the nil
  interface; \<open>VBytes None\<close> is the nil slice; \<open>VOther n c\<close> is a value of the type named
  \<open>n\<close>, of which only a code \<open>c\<close> is known, \<open>0\<close> for the zero value of the type.
\<close>

datatype gvalue =
    VNil
  | VBool bool
  | VInt "64 word" | VInt8 "8 word" | VInt16 "16 word" | VInt32 "32 word" | VInt64 "64 word"
  | VUint "64 word" | VUint8 "8 word" | VUint16 "16 word" | VUint32 "32 word" | VUint64 "64 word"
  | VFloat32 float | VFloat64 float
  | VString string
  | VBytes "string option"
  | VOther string nat

fun Kind :: "gotype \<Rightarrow> kind" where
  "Kind TBool = KBool"
| "Kind TInt = KInt" | "Kind TInt8 = KInt8" | "Kind TInt16 = KInt16"
| "Kind TInt32 = KInt32" | "Kind TInt64 = KInt64"
| "Kind TUint = KUint" | "Kind TUint8 = KUint8" | "Kind TUint16 = KUint16"
| "Kind TUint32 = KUint32" | "Kind TUint64 = KUint64"
| "Kind TFloat32 = KFloat32" | "Kind TFloat64 = KFloat64"
| "Kind TString = KString" | "Kind TBytes = KSlice" | "Kind TAny = KInterface"
| "Kind (TOther n) = KStruct"

text \<open>\<open>reflect.TypeOf\<close>: the dynamic type of a value, none for the nil interface.\<close>

fun TypeOf :: "gvalue \<Rightarrow> gotype option" where
  "TypeOf VNil = None"
| "TypeOf (VBool b) = Some TBool"
| "TypeOf (VInt w) = Some TInt" | "TypeOf (VInt8 w) = Some TInt8"
| "TypeOf (VInt16 w) = Some TInt16" | "TypeOf (VInt32 w) = Some TInt32"
| "TypeOf (VInt64 w) = Some TInt64"
| "TypeOf (VUint w) = Some TUint" | "TypeOf (VUint8 w) = Some TUint8"
| "TypeOf (VUint16 w) = Some TUint16" | "TypeOf (VUint32 w) = Some TUint32"
| "TypeOf (VUint64 w) = Some TUint64"
| "TypeOf (VFloat32 f) = Some TFloat32" | "TypeOf (VFloat64 f) = Some TFloat64"
| "TypeOf (VString s) = Some TString"
| "TypeOf (VBytes b) = Some TBytes"
| "TypeOf (VOther n c) = Some (TOther n)"

text \<open>The name of a type as the verbs \<open>%T\<close> and \<open>%v\<close> print it.\<close>

fun type_string :: "gotype \<Rightarrow> string" where
  "type_string TBool = ''bool''"
| "type_string TInt = ''int''" | "type_string TInt8 = ''int8''"
| "type_string TInt16 = ''int16''" | "type_string TInt32 = ''int32''"
| "type_string TInt64 = ''int64''"
| "type_string TUint = ''uint''" | "type_string TUint8 = ''uint8''"
| "type_string TUint16 = ''uint16''" | "type_string TUint32 = ''uint32''"
| "type_string TUint64 = ''uint64''"
| "type_string TFloat32 = ''float32''" | "type_string TFloat64 = ''float64''"
| "type_string TString = ''string''" | "type_string TBytes = ''[]uint8''"
| "type_string TAny = ''interface {}''"
| "type_string (TOther n) = n"

text \<open>The zero value of a type, as \<open>reflect.New(t).Elem()\<close> holds it.\<close>

fun zero_value :: "gotype \<Rightarrow> gvalue" where
  "zero_value TBool = VBool False"
| "zero_value TInt = VInt 0" | "zero_value TInt8 = VInt8 0" | "zero_value TInt16 = VInt16 0"
| "zero_value TInt32 = VInt32 0" | "zero_value TInt64 = VInt64 0"
| "zero_value TUint = VUint 0" | "zero_value TUint8 = VUint8 0" | "zero_value TUint16 = VUint16 0"
| "zero_value TUint32 = VUint32 0" | "zero_value TUint64 = VUint64 0"
| "zero_value TFloat32 = VFloat32 (Finite 0)" | "zero_value TFloat64 = VFloat64 (Finite 0)"
| "zero_value TString = VString []"
| "zero_value TBytes = VBytes None"
| "zero_value TAny = VNil"
| "zero_value (TOther n) = VOther n 0"

text \<open>Whether a value is the zero value of its dynamic type.\<close>

fun is_zero :: "gvalue \<Rightarrow> bool" where
  "is_zero VNil = True"
| "is_zero (VBool b) = (\<not> b)"
| "is_zero (VInt w) = (w = 0)" | "is_zero (VInt8 w) = (w = 0)" | "is_zero (VInt16 w) = (w = 0)"
| "is_zero (VInt32 w) = (w = 0)" | "is_zero (VInt64 w) = (w = 0)"
| "is_zero (VUint w) = (w = 0)" | "is_zero (VUint8 w) = (w = 0)" | "is_zero (VUint16 w) = (w = 0)"
| "is_zero (VUint32 w) = (w = 0)" | "is_zero (VUint64 w) = (w = 0)"
| "is_zero (VFloat32 f) = (f = Finite 0)" | "is_zero (VFloat64 f) = (f = Finite 0)"
| "is_zero (VString s) = (s = [])"
| "is_zero (VBytes b) = (b = None)"
| "is_zero (VOther n c) = (c = 0)"

section \<open>Struct types and struct values, as the reflect package shows them\<close>

text \<open>
  \<open>reflect.StructField\<close>: \<open>PkgPath\<close> is empty exactly for an exported field; \<open>Tag\<close> holds
  the key/value pairs of the struct tag, so \<open>`storm:"pk" json:"id"`\<close> is
  \<open>[(''storm'', ''pk''), (''json'', ''id'')]\<close>.
\<close>

record StructField =
  Name :: string
  PkgPath :: string
  Type :: gotype
  Tag :: "(string \<times> string) list"

definition Tag_Lookup :: "(string \<times> string) list \<Rightarrow> string \<Rightarrow> string option" where
  "Tag_Lookup tag key = map_of tag key"

definition Tag_Get :: "(string \<times> string) list \<Rightarrow> string \<Rightarrow> string" where
  "Tag_Get tag key = (case Tag_Lookup tag key of None \<Rightarrow> [] | Some v \<Rightarrow> v)"

text \<open>
  \<open>val.Field(i).IsZero()\<close>: a field of interface type is zero when it holds the nil
  interface, any other field when it holds the zero value of its type.
\<close>

definition IsZero :: "StructField \<Rightarrow> gvalue \<Rightarrow> bool" where
  "IsZero field v = (if Kind (Type field) = KInterface then v = VNil else is_zero v)"

text \<open>
  A struct value: the name of its type and, in declaration order, every field with the
  value it holds. \<open>NumField\<close> is the length of \<open>fvals\<close>; \<open>tipe.Field(i)\<close> and
  \<open>val.Field(i)\<close> are the two components of its \<open>i\<close>-th element.
\<close>

record Struct =
  tname :: string
  fvals :: "(StructField \<times> gvalue) list"

record StructType =
  sname :: string
  sfields :: "StructField list"

text \<open>\<open>reflect.New(tipe).Elem()\<close>: the zero value of a struct type.\<close>

definition New :: "StructType \<Rightarrow> Struct" where
  "New t = \<lparr>tname = sname t, fvals = map (\<lambda>f. (f, zero_value (Type f))) (sfields t)\<rparr>"

section \<open>Failures\<close>

text \<open>
  A call either returns an \<open>error\<close> value (\<open>Error\<close>, with its message) or panics.
  A result \<open>None :: error option\<close> is the nil error.
\<close>

datatype error =
    Error string
  | PanicIndexOutOfRange nat nat
  | PanicUnexportedField string
  | PanicValueError string

text \<open>An index expression \<open>xs[i]\<close> panics out of range.\<close>

definition index :: "'a list \<Rightarrow> nat \<Rightarrow> error + 'a" where
  "index xs i = (if i < length xs then Inr (xs ! i) else Inl (PanicIndexOutOfRange i (length xs)))"

text \<open>\<open>reflect.Value.Interface\<close> panics on a value reached through an unexported field.\<close>

definition Interface :: "StructField \<Rightarrow> gvalue \<Rightarrow> error + gvalue" where
  "Interface f v =
     (if PkgPath f \<noteq> [] then Inl (PanicUnexportedField ''reflect.Value.Interface'') else Inr v)"

section \<open>The database handle\<close>

text \<open>
  The driver is outside the program: a handle answers each call, and every operation
  returns the calls it made, in order. \<open>Exec\<close> answers with an error or nil; \<open>Query\<close> with an
  error or the column names and the rows, each row an error of \<open>Scan\<close> or its values;
  \<open>QueryRow\<close> with what \<open>Scan\<close> into an \<open>int\<close> gives.
\<close>

datatype db_call =
    ExecCall string "gvalue list"
  | QueryCall string "gvalue list"
  | QueryRowCall string

type_synonym row = "string + gvalue list"

record DB =
  Exec :: "string \<Rightarrow> gvalue list \<Rightarrow> string option"
  Query :: "string \<Rightarrow> gvalue list \<Rightarrow> string + (string list \<times> row list)"
  QueryRow :: "string \<Rightarrow> string + 64 word"

definition err_of :: "string option \<Rightarrow> error option" where
  "err_of e = map_option Error e"

section \<open>storm.go: Insert, Update, Delete\<close>

text \<open>The table of a struct type: \<open>strings.ToLower(tipe.Name() + "s")\<close>.\<close>

definition table_name :: "platform \<Rightarrow> string \<Rightarrow> string" where
  "table_name pf n = ToLower pf (n @ ''s'')"

text \<open>
  The column of a field that is not the primary key, as \<open>Insert\<close> and \<open>Update\<close> compute it:
  the second piece of the tag when the tag contains \<open>column\<close>, the lower-cased field name
  otherwise.
\<close>

definition column_of :: "platform \<Rightarrow> StructField \<Rightarrow> error + string" where
  "column_of pf field =
     (let tag = Tag_Get (Tag field) ''storm'';
          is_column = Contains tag ''column''
      in if is_column then index (Split tag CHR '':'') 1
         else Inr (ToLower pf (Name field)))"

text \<open>
  The loop of \<open>Insert\<close> from field \<open>i\<close> on, with the three slices it appends to.
\<close>

fun Insert_loop ::
  "platform \<Rightarrow> nat \<Rightarrow> (StructField \<times> gvalue) list \<Rightarrow> string list \<times> string list \<times> gvalue list
     \<Rightarrow> error + (string list \<times> string list \<times> gvalue list)" where
  "Insert_loop pf i [] acc = Inr acc"
| "Insert_loop pf i ((field, v) # rest) (columns, placeholders, vals) =
     (let tag = Tag_Get (Tag field) ''storm'';
          is_primary = Contains tag ''pk''
      in if is_primary then Insert_loop pf (Suc i) rest (columns, placeholders, vals)
         else (case column_of pf field of
                 Inl p \<Rightarrow> Inl p
               | Inr col \<Rightarrow>
                   (let placeHolderVal = CHR ''$'' # show_nat i
                    in case Interface field v of
                         Inl p \<Rightarrow> Inl p
                       | Inr x \<Rightarrow>
                           Insert_loop pf (Suc i) rest
                             (columns @ [col], placeholders @ [placeHolderVal], vals @ [x]))))"

definition Insert_sql :: "string \<Rightarrow> string list \<Rightarrow> string list \<Rightarrow> string" where
  "Insert_sql table columns placeholders =
     ''INSERT INTO '' @ table @ '' ('' @ Join columns '', '' @ '') VALUES (''
       @ Join placeholders '', '' @ '')''"

definition Insert :: "platform \<Rightarrow> DB \<Rightarrow> Struct \<Rightarrow> db_call list \<times> error option" where
  "Insert pf db val =
     (case Insert_loop pf 0 (fvals val) ([], [], []) of
        Inl p \<Rightarrow> ([], Some p)
      | Inr (columns, placeholders, vals) \<Rightarrow>
          (let q = Insert_sql (table_name pf (tname val)) columns placeholders
           in ([ExecCall q vals], err_of (Exec db q vals))))"

text \<open>
  The loop of \<open>Update\<close>: the state is \<open>paramCount\<close>, \<open>setClause\<close>, \<open>vals\<close>, \<open>pkField\<close> and
  \<open>pkValue\<close>.
\<close>

fun Update_loop ::
  "platform \<Rightarrow> nat \<Rightarrow> (StructField \<times> gvalue) list \<Rightarrow> nat \<times> string list \<times> gvalue list \<times> string \<times> gvalue
     \<Rightarrow> error + (nat \<times> string list \<times> gvalue list \<times> string \<times> gvalue)" where
  "Update_loop pf i [] st = Inr st"
| "Update_loop pf i ((field, v) # rest) (paramCount, setClause, vals, pkField, pkValue) =
     (let tag = Tag_Get (Tag field) ''storm'';
          is_primary = Contains tag ''pk''
      in if is_primary then
           (case Interface field v of
              Inl p \<Rightarrow> Inl p
            | Inr x \<Rightarrow> Update_loop pf (Suc i) rest (paramCount, setClause, vals, Name field, x))
         else (case column_of pf field of
                 Inl p \<Rightarrow> Inl p
               | Inr col \<Rightarrow>
                   if \<not> IsZero field v then
                     (case Interface field v of
                        Inl p \<Rightarrow> Inl p
                      | Inr x \<Rightarrow>
                          Update_loop pf (Suc i) rest
                            (Suc paramCount, setClause @ [col @ '' = $'' @ show_nat i],
                             vals @ [x], pkField, pkValue))
                   else Update_loop pf (Suc i) rest (paramCount, setClause, vals, pkField, pkValue)))"

definition Update_sql :: "string \<Rightarrow> string list \<Rightarrow> string \<Rightarrow> nat \<Rightarrow> string" where
  "Update_sql table setClause pkField paramCount =
     [CHR 0x0A, CHR 0x09, CHR 0x09] @ ''UPDATE '' @ table @ '' SET '' @ Join setClause '', ''
       @ '' WHERE '' @ pkField @ '' = $'' @ show_nat paramCount @ [CHR 0x0A, CHR 0x09]"

definition Update :: "platform \<Rightarrow> DB \<Rightarrow> Struct \<Rightarrow> db_call list \<times> error option" where
  "Update pf db val =
     (case Update_loop pf 0 (fvals val) (1, [], [], [], VNil) of
        Inl p \<Rightarrow> ([], Some p)
      | Inr (paramCount, setClause, vals, pkField, pkValue) \<Rightarrow>
          if pkField = [] then ([], Some (Error ''no primary key is found for update''))
          else (let vals' = vals @ [pkValue];
                    q = Update_sql (table_name pf (tname val)) setClause pkField paramCount
                in ([ExecCall q vals'], err_of (Exec db q vals'))))"

text \<open>The loop of \<open>Delete\<close>: the state is \<open>paramCount\<close>, \<open>pkField\<close> and \<open>pkValue\<close>.\<close>

fun Delete_loop ::
  "(StructField \<times> gvalue) list \<Rightarrow> nat \<times> string \<times> gvalue \<Rightarrow> error + (nat \<times> string \<times> gvalue)" where
  "Delete_loop [] st = Inr st"
| "Delete_loop ((field, v) # rest) (paramCount, pkField, pkValue) =
     (let tag = Tag_Get (Tag field) ''storm'';
          col = Name field;
          is_primary = Contains tag ''pk''
      in if is_primary then
           (case Interface field v of
              Inl p \<Rightarrow> Inl p
            | Inr x \<Rightarrow> Delete_loop rest (Suc paramCount, col, x))
         else Delete_loop rest (paramCount, pkField, pkValue))"

definition Delete_sql :: "string \<Rightarrow> string \<Rightarrow> nat \<Rightarrow> string" where
  "Delete_sql table pkField paramCount =
     [CHR 0x0A, CHR 0x09] @ ''DELETE FROM '' @ table @ '' WHERE '' @ pkField @ '' = $''
       @ show_nat paramCount @ [CHR 0x0A, CHR 0x09]"

definition Delete :: "platform \<Rightarrow> DB \<Rightarrow> Struct \<Rightarrow> db_call list \<times> error option" where
  "Delete pf db val =
     (case Delete_loop (fvals val) (0, [], VNil) of
        Inl p \<Rightarrow> ([], Some p)
      | Inr (paramCount, pkField, pkValue) \<Rightarrow>
          (let vals = [pkValue];
               q = Delete_sql (table_name pf (tname val)) pkField paramCount
           in ([ExecCall q vals], err_of (Exec db q vals))))"

section \<open>Floating point\<close>

definition pow2 :: "int \<Rightarrow> rat" where
  "pow2 k = (if 0 \<le> k then 2 ^ nat k else 1 / 2 ^ nat (- k))"

text \<open>
  \<open>pow2 k\<close> is 2 to the power \<open>k\<close>. The binary exponent of a positive rational \<open>x\<close> is the
  \<open>e\<close> with \<open>pow2 e \<le> x < pow2 (e + 1)\<close>.
\<close>

definition ilog2 :: "rat \<Rightarrow> int" where
  "ilog2 x =
     (let k = bitlen (fst (quotient_of x)) - bitlen (snd (quotient_of x))
      in if pow2 k \<le> x then k else k - 1)"

definition round_half_even :: "rat \<Rightarrow> int" where
  "round_half_even x =
     (let f = \<lfloor>x\<rfloor>; r = x - of_int f
      in if r < 1 / 2 then f
         else if 1 / 2 < r then f + 1
         else if even f then f else f + 1)"

text \<open>
  IEEE 754 rounding of a rational to the nearest number of a binary format with \<open>p\<close> bits
  of precision and exponents from \<open>emin\<close> to \<open>emax\<close>, ties to even: the number is a
  multiple of the unit in the last place of \<open>x\<close>, and what reaches \<open>pow2 (emax + 1)\<close> is
  infinite.
\<close>

definition round_to :: "nat \<Rightarrow> int \<Rightarrow> int \<Rightarrow> rat \<Rightarrow> float" where
  "round_to p emin emax x =
     (if x = 0 then Finite 0
      else (let a = \<bar>x\<bar>;
                e = max (ilog2 a) emin;
                ulp = pow2 (e - int p + 1);
                y = of_int (round_half_even (a / ulp)) * ulp
            in if pow2 (emax + 1) \<le> y then (if 0 < x then PosInf else NegInf)
               else Finite (if 0 < x then y else - y)))"

definition float64 :: "rat \<Rightarrow> float" where
  "float64 x = round_to 53 (- 1022) 1023 x"

definition float32 :: "rat \<Rightarrow> float" where
  "float32 x = round_to 24 (- 126) 127 x"

text \<open>The conversions \<open>float64(v)\<close> of an \<open>int64\<close> or \<open>int\<close> and \<open>float32(x)\<close> of a \<open>float64\<close>.\<close>

definition float64_of_int64 :: "64 word \<Rightarrow> float" where
  "float64_of_int64 v = float64 (of_int (sint v))"

definition float32_of_float64 :: "float \<Rightarrow> float" where
  "float32_of_float64 x = (case x of Finite r \<Rightarrow> float32 r | PosInf \<Rightarrow> PosInf | NegInf \<Rightarrow> NegInf | NaN \<Rightarrow> NaN)"

text \<open>The quotient \<open>x / y\<close> of two \<open>float64\<close>.\<close>

fun float64_div :: "float \<Rightarrow> float \<Rightarrow> float" where
  "float64_div (Finite a) (Finite b) =
     (if b = 0 then (if a = 0 then NaN else if 0 < a then PosInf else NegInf)
      else float64 (a / b))"
| "float64_div (Finite a) PosInf = Finite 0"
| "float64_div (Finite a) NegInf = Finite 0"
| "float64_div PosInf (Finite b) = (if 0 \<le> b then PosInf else NegInf)"
| "float64_div NegInf (Finite b) = (if 0 \<le> b then NegInf else PosInf)"
| "float64_div x y = NaN"

text \<open>\<open>math.Ceil\<close>.\<close>

fun Ceil :: "float \<Rightarrow> float" where
  "Ceil (Finite x) = Finite (of_int \<lceil>x\<rceil>)"
| "Ceil x = x"

text \<open>
  The conversion of a \<open>float64\<close> to an integer type discards the fraction. Where the
  integer type cannot hold the result, the platform says what the value is.
\<close>

definition integer_part :: "rat \<Rightarrow> int" where
  "integer_part x = (if 0 \<le> x then \<lfloor>x\<rfloor> else \<lceil>x\<rceil>)"

definition int64_of_float64 :: "platform \<Rightarrow> float \<Rightarrow> 64 word" where
  "int64_of_float64 pf x =
     (case x of
        Finite r \<Rightarrow>
          if - (2 ^ 63) \<le> integer_part r \<and> integer_part r < 2 ^ 63 then word_of_int (integer_part r)
          else int64_out_of_range pf x
      | PosInf \<Rightarrow> int64_out_of_range pf x
      | NegInf \<Rightarrow> int64_out_of_range pf x
      | NaN \<Rightarrow> int64_out_of_range pf x)"

definition uint64_of_float64 :: "platform \<Rightarrow> float \<Rightarrow> 64 word" where
  "uint64_of_float64 pf x =
     (case x of
        Finite r \<Rightarrow>
          if 0 \<le> integer_part r \<and> integer_part r < 2 ^ 64 then word_of_int (integer_part r)
          else uint64_out_of_range pf x
      | PosInf \<Rightarrow> uint64_out_of_range pf x
      | NegInf \<Rightarrow> uint64_out_of_range pf x
      | NaN \<Rightarrow> uint64_out_of_range pf x)"

section \<open>query_builder.go: setFieldValue\<close>

text \<open>
  \<open>reflect.Type.AssignableTo\<close> on the types of the model: a type is assignable to itself
  and to the empty interface.
\<close>

definition AssignableTo :: "gotype \<Rightarrow> gotype \<Rightarrow> bool" where
  "AssignableTo v t = (v = t \<or> t = TAny)"

text \<open>
  The setters of \<open>reflect.Value\<close>, for the value of a struct field. Each panics on an
  unexported field and on a field of another kind than its own; \<open>SetInt\<close>, \<open>SetUint\<close> and
  \<open>SetFloat\<close> convert to the type of the field, which for a narrower integer keeps the low
  bits. Each returns what the field holds afterwards.
\<close>

definition Set :: "StructField \<Rightarrow> gvalue \<Rightarrow> error + gvalue" where
  "Set field x =
     (if PkgPath field \<noteq> [] then Inl (PanicUnexportedField ''reflect.Value.Set'') else Inr x)"

definition SetInt :: "StructField \<Rightarrow> 64 word \<Rightarrow> error + gvalue" where
  "SetInt field x =
     (if PkgPath field \<noteq> [] then Inl (PanicUnexportedField ''reflect.Value.SetInt'')
      else (case Type field of
              TInt \<Rightarrow> Inr (VInt x)
            | TInt8 \<Rightarrow> Inr (VInt8 (ucast x))
            | TInt16 \<Rightarrow> Inr (VInt16 (ucast x))
            | TInt32 \<Rightarrow> Inr (VInt32 (ucast x))
            | TInt64 \<Rightarrow> Inr (VInt64 x)
            | _ \<Rightarrow> Inl (PanicValueError ''reflect.Value.SetInt'')))"

definition SetUint :: "StructField \<Rightarrow> 64 word \<Rightarrow> error + gvalue" where
  "SetUint field x =
     (if PkgPath field \<noteq> [] then Inl (PanicUnexportedField ''reflect.Value.SetUint'')
      else (case Type field of
              TUint \<Rightarrow> Inr (VUint x)
            | TUint8 \<Rightarrow> Inr (VUint8 (ucast x))
            | TUint16 \<Rightarrow> Inr (VUint16 (ucast x))
            | TUint32 \<Rightarrow> Inr (VUint32 (ucast x))
            | TUint64 \<Rightarrow> Inr (VUint64 x)
            | _ \<Rightarrow> Inl (PanicValueError ''reflect.Value.SetUint'')))"

definition SetFloat :: "StructField \<Rightarrow> float \<Rightarrow> error + gvalue" where
  "SetFloat field x =
     (if PkgPath field \<noteq> [] then Inl (PanicUnexportedField ''reflect.Value.SetFloat'')
      else (case Type field of
              TFloat32 \<Rightarrow> Inr (VFloat32 (float32_of_float64 x))
            | TFloat64 \<Rightarrow> Inr (VFloat64 x)
            | _ \<Rightarrow> Inl (PanicValueError ''reflect.Value.SetFloat'')))"

definition SetString :: "StructField \<Rightarrow> string \<Rightarrow> error + gvalue" where
  "SetString field x =
     (if PkgPath field \<noteq> [] then Inl (PanicUnexportedField ''reflect.Value.SetString'')
      else (case Type field of
              TString \<Rightarrow> Inr (VString x)
            | _ \<Rightarrow> Inl (PanicValueError ''reflect.Value.SetString'')))"

definition SetBool :: "StructField \<Rightarrow> bool \<Rightarrow> error + gvalue" where
  "SetBool field x =
     (if PkgPath field \<noteq> [] then Inl (PanicUnexportedField ''reflect.Value.SetBool'')
      else (case Type field of
              TBool \<Rightarrow> Inr (VBool x)
            | _ \<Rightarrow> Inl (PanicValueError ''reflect.Value.SetBool'')))"

definition cannot_convert :: "gotype \<Rightarrow> string \<Rightarrow> error" where
  "cannot_convert valType target = Error (''cannot convert '' @ type_string valType @ '' to '' @ target)"

text \<open>
  \<open>setFieldValue(field, value)\<close>: \<open>field\<close> is the field and \<open>cur\<close> what it holds; the result is
  what it holds afterwards, an error or a panic.
\<close>

definition setFieldValue :: "platform \<Rightarrow> StructField \<Rightarrow> gvalue \<Rightarrow> gvalue \<Rightarrow> error + gvalue" where
  "setFieldValue pf field cur val =
     (case TypeOf val of
        None \<Rightarrow> Inr cur
      | Some valType \<Rightarrow>
          (let fieldType = Type field
           in if AssignableTo valType fieldType then Set field val
              else if Kind fieldType \<in> set [KInt, KInt8, KInt16, KInt32, KInt64] then
                (case val of
                   VInt64 v \<Rightarrow> SetInt field v
                 | VInt32 v \<Rightarrow> SetInt field (scast v)
                 | VInt v \<Rightarrow> SetInt field v
                 | VFloat64 v \<Rightarrow> SetInt field (int64_of_float64 pf v)
                 | _ \<Rightarrow> Inl (cannot_convert valType (type_string fieldType)))
              else if Kind fieldType \<in> set [KUint, KUint8, KUint16, KUint32, KUint64] then
                (case val of
                   VInt64 v \<Rightarrow> SetUint field v
                 | VInt32 v \<Rightarrow> SetUint field (scast v)
                 | VInt v \<Rightarrow> SetUint field v
                 | VFloat64 v \<Rightarrow> SetUint field (uint64_of_float64 pf v)
                 | _ \<Rightarrow> Inl (cannot_convert valType (type_string fieldType)))
              else if Kind fieldType \<in> set [KFloat32, KFloat64] then
                (case val of
                   VFloat64 v \<Rightarrow> SetFloat field v
                 | VInt64 v \<Rightarrow> SetFloat field (float64_of_int64 v)
                 | VInt v \<Rightarrow> SetFloat field (float64_of_int64 v)
                 | _ \<Rightarrow> Inl (cannot_convert valType (type_string fieldType)))
              else if Kind fieldType = KString then
                (case val of
                   VString v \<Rightarrow> SetString field v
                 | VBytes v \<Rightarrow> SetString field (case v of None \<Rightarrow> [] | Some b \<Rightarrow> b)
                 | _ \<Rightarrow> Inl (cannot_convert valType ''string''))
              else if Kind fieldType = KBool then
                (case val of
                   VBool v \<Rightarrow> SetBool field v
                 | VInt64 v \<Rightarrow> SetBool field (v \<noteq> 0)
                 | _ \<Rightarrow> Inl (cannot_convert valType ''bool''))
              else Inl (Error (''unsupported field type: '' @ type_string fieldType))))"

section \<open>query_builder.go: the query builder\<close>

text \<open>
  The struct \<open>Query\<close>; its pointer to the \<open>Storm\<close> is the handle the operations take. The
  fields \<open>table\<close>, \<open>where\<close>, \<open>whereArgument\<close> and \<open>limit\<close> have the prefix \<open>q_\<close> here.
\<close>

record Query =
  q_table :: string
  q_where :: string
  q_whereArgument :: "gvalue list"
  q_limit :: "64 word"

definition From :: "platform \<Rightarrow> StructType \<Rightarrow> Query" where
  "From pf tipe = \<lparr>q_table = ToLower pf (sname tipe @ ''s''), q_where = [], q_whereArgument = [],
     q_limit = 0\<rparr>"

definition Where :: "Query \<Rightarrow> string \<Rightarrow> gvalue list \<Rightarrow> Query" where
  "Where q condition args = q\<lparr>q_where := condition, q_whereArgument := args\<rparr>"

definition Limit :: "Query \<Rightarrow> 64 word \<Rightarrow> Query" where
  "Limit q n = q\<lparr>q_limit := n\<rparr>"

text \<open>
  \<open>rows.Scan(ptrs...)\<close> with one pointer for each column: an error of the driver, the
  error of \<open>database/sql\<close> when the row has another number of values, or the values.
\<close>

definition Scan :: "nat \<Rightarrow> row \<Rightarrow> string + gvalue list" where
  "Scan n r =
     (case r of
        Inl e \<Rightarrow> Inl e
      | Inr vs \<Rightarrow>
          if length vs \<noteq> n then
            Inl (''sql: expected '' @ show_nat (length vs)
                   @ '' destination arguments in Scan, not '' @ show_nat n)
          else Inr vs)"

text \<open>
  \<open>reflect.Value.FieldByName\<close>: the first field of that name, with its position and
  what it holds.
\<close>

definition FieldByName :: "Struct \<Rightarrow> string \<Rightarrow> (nat \<times> StructField \<times> gvalue) option" where
  "FieldByName s n = find (\<lambda>(i, f, v). Name f = n) (enumerate 0 (fvals s))"

definition selectedCols :: "string list \<Rightarrow> string" where
  "selectedCols queryCol = (if length queryCol > 0 then Join queryCol '','' else ''*'')"

subsection \<open>First\<close>

text \<open>The loop over the rows of \<open>First\<close>: each \<open>Scan\<close> overwrites \<open>vals\<close>.\<close>

fun First_scan :: "nat \<Rightarrow> gvalue list \<Rightarrow> row list \<Rightarrow> string + gvalue list" where
  "First_scan n vals [] = Inr vals"
| "First_scan n vals (r # rows) =
     (case Scan n r of Inl e \<Rightarrow> Inl e | Inr vs \<Rightarrow> First_scan n vs rows)"

text \<open>The map \<open>ht\<close> of \<open>First\<close>, from column to field name.\<close>

fun First_ht :: "platform \<Rightarrow> StructField list \<Rightarrow> (string \<rightharpoonup> string) \<Rightarrow> (string \<rightharpoonup> string)" where
  "First_ht pf [] ht = ht"
| "First_ht pf (field # rest) ht =
     (let structFieldName =
            (case Tag_Lookup (Tag field) ''storm'' of
               None \<Rightarrow> ToLower pf (Name field)
             | Some val \<Rightarrow>
                 (let stormTagSplit = Split val CHR '':''
                  in if length stormTagSplit = 2 then stormTagSplit ! 1
                     else ToLower pf (Name field)))
      in First_ht pf rest (ht(structFieldName \<mapsto> Name field)))"

text \<open>
  The loop over the columns of \<open>First\<close>, on the columns paired with \<open>vals\<close>: the
  destination as it stands when the loop ends, and the error that ended it.
\<close>

fun First_assign ::
  "platform \<Rightarrow> (string \<rightharpoonup> string) \<Rightarrow> Struct \<Rightarrow> (string \<times> gvalue) list \<Rightarrow> Struct \<times> error option" where
  "First_assign pf ht dest [] = (dest, None)"
| "First_assign pf ht dest ((col, v) # rest) =
     (case ht col of
        None \<Rightarrow> First_assign pf ht dest rest
      | Some structFieldName \<Rightarrow>
          (case FieldByName dest structFieldName of
             None \<Rightarrow> First_assign pf ht dest rest
           | Some (j, field, cur) \<Rightarrow>
               (case setFieldValue pf field cur v of
                  Inl err \<Rightarrow> (dest, Some err)
                | Inr x \<Rightarrow>
                    First_assign pf ht (dest\<lparr>fvals := (fvals dest)[j := (field, x)]\<rparr>) rest)))"

definition First_query :: "Query \<Rightarrow> string list \<Rightarrow> string" where
  "First_query q queryCol =
     (let query = ''SELECT '' @ selectedCols queryCol @ '' FROM '' @ q_table q;
          query = (if q_where q \<noteq> [] then query @ '' WHERE '' @ q_where q else query)
      in query @ '' LIMIT '' @ show_int 1)"

definition Query_args :: "Query \<Rightarrow> gvalue list" where
  "Query_args q = (if q_where q \<noteq> [] then q_whereArgument q else [])"

definition First ::
  "platform \<Rightarrow> DB \<Rightarrow> Query \<Rightarrow> Struct \<Rightarrow> string list \<Rightarrow> db_call list \<times> Struct \<times> error option" where
  "First pf db q dest queryCol =
     (let query = First_query q queryCol;
          args = Query_args q
      in case Query db query args of
           Inl err \<Rightarrow> ([QueryCall query args], dest, Some (Error err))
         | Inr (columnNames, rows) \<Rightarrow>
             (case First_scan (length columnNames) (replicate (length columnNames) VNil) rows of
                Inl err \<Rightarrow> ([QueryCall query args], dest, Some (Error err))
              | Inr vals \<Rightarrow>
                  (let ht = First_ht pf (map fst (fvals dest)) Map.empty;
                       (dest', err) = First_assign pf ht dest (zip columnNames vals)
                   in ([QueryCall query args], dest', err))))"

subsection \<open>Select\<close>

fun Select_ht :: "platform \<Rightarrow> StructField list \<Rightarrow> (string \<rightharpoonup> string) \<Rightarrow> (string \<rightharpoonup> string)" where
  "Select_ht pf [] ht = ht"
| "Select_ht pf (field # rest) ht =
     (let col =
            (case Tag_Lookup (Tag field) ''storm'' of
               None \<Rightarrow> ToLower pf (Name field)
             | Some tag \<Rightarrow>
                 (let parts = Split tag CHR '':''
                  in if length parts = 2 \<and> parts ! 0 = ''column'' then parts ! 1
                     else ToLower pf (Name field)))
      in Select_ht pf rest (ht(col \<mapsto> Name field)))"

text \<open>
  The loop over the columns of one row, on the columns paired with \<open>vals\<close>: the struct
  populated, or the error that ended the loop.
\<close>

fun Select_assign ::
  "platform \<Rightarrow> (string \<rightharpoonup> string) \<Rightarrow> Struct \<Rightarrow> (string \<times> gvalue) list \<Rightarrow> error + Struct" where
  "Select_assign pf ht newStruct [] = Inr newStruct"
| "Select_assign pf ht newStruct ((col, v) # rest) =
     (case ht col of
        None \<Rightarrow> Select_assign pf ht newStruct rest
      | Some structFieldName \<Rightarrow>
          (case FieldByName newStruct structFieldName of
             None \<Rightarrow> Select_assign pf ht newStruct rest
           | Some (j, field, cur) \<Rightarrow>
               (case setFieldValue pf field cur v of
                  Inl (Error msg) \<Rightarrow>
                    Inl (Error (''error setting field '' @ structFieldName @ '': '' @ msg))
                | Inl panic \<Rightarrow> Inl panic
                | Inr x \<Rightarrow>
                    Select_assign pf ht
                      (newStruct\<lparr>fvals := (fvals newStruct)[j := (field, x)]\<rparr>) rest)))"

text \<open>
  The loop over the rows, \<open>for rows.Next()\<close>, which \<open>Select\<close> and \<open>Paginate\<close> both have,
  in the same words: the slice as it stands when the loop ends, and the error that ended
  it.
\<close>

fun Select_rows ::
  "platform \<Rightarrow> StructType \<Rightarrow> string list \<Rightarrow> row list \<Rightarrow> Struct list \<Rightarrow> Struct list \<times> error option" where
  "Select_rows pf tipe cols [] sliceVal = (sliceVal, None)"
| "Select_rows pf tipe cols (r # rows) sliceVal =
     (case Scan (length cols) r of
        Inl err \<Rightarrow> (sliceVal, Some (Error err))
      | Inr vals \<Rightarrow>
          (let newStruct = New tipe;
               ht = Select_ht pf (sfields tipe) Map.empty
           in case Select_assign pf ht newStruct (zip cols vals) of
                Inl err \<Rightarrow> (sliceVal, Some err)
              | Inr populated \<Rightarrow> Select_rows pf tipe cols rows (sliceVal @ [populated])))"



subsection \<open>Paginate\<close>

definition Paginate_count_query :: "Query \<Rightarrow> string" where
  "Paginate_count_query q = ''SELECT COUNT(*) FROM '' @ q_table q"

definition Paginate_query :: "Query \<Rightarrow> string list \<Rightarrow> string" where
  "Paginate_query q queryCol =
     ''SELECT '' @ selectedCols queryCol @ '' FROM '' @ q_table q
       @ '' ORDER BY id LIMIT $1 OFFSET $2''"

text \<open>\<open>int(math.Ceil(float64(*total) / float64(pageSize)))\<close>.\<close>

definition Paginate_totalPages :: "platform \<Rightarrow> 64 word \<Rightarrow> 64 word \<Rightarrow> 64 word" where
  "Paginate_totalPages pf total1 pageSize =
     int64_of_float64 pf (Ceil (float64_div (float64_of_int64 total1) (float64_of_int64 pageSize)))"

text \<open>
  \<open>Paginate\<close>: \<open>total0\<close> and \<open>totalPages0\<close> are what the pointers \<open>total\<close> and \<open>totalPages\<close>
  point at when the call starts; the result has the calls made, then the slice, \<open>*total\<close>
  and \<open>*totalPages\<close> as the call leaves them, then the error.
\<close>

definition Paginate ::
  "platform \<Rightarrow> DB \<Rightarrow> Query \<Rightarrow> StructType \<Rightarrow> Struct list \<Rightarrow> 64 word \<Rightarrow> 64 word \<Rightarrow> 64 word \<Rightarrow> 64 word
     \<Rightarrow> string list \<Rightarrow> db_call list \<times> Struct list \<times> 64 word \<times> 64 word \<times> error option" where
  "Paginate pf db q tipe dest page pageSize total0 totalPages0 queryCol =
     (let page = (if page <s 1 then 1 else page);
          pageSize = (if pageSize \<le>s 0 then 1 else pageSize);
          countQuery = Paginate_count_query q
      in case QueryRow db countQuery of
           Inl err \<Rightarrow> ([QueryRowCall countQuery], dest, total0, totalPages0, Some (Error err))
         | Inr total1 \<Rightarrow>
             (let totalPages1 = Paginate_totalPages pf total1 pageSize;
                  offset = (page - 1) * pageSize;
                  query = Paginate_query q queryCol;
                  calls = [QueryRowCall countQuery, QueryCall query [VInt pageSize, VInt offset]]
              in case Query db query [VInt pageSize, VInt offset] of
                   Inl err \<Rightarrow> (calls, dest, total1, totalPages1, Some (Error err))
                 | Inr (cols, rows) \<Rightarrow>
                     (let (dest', err) = Select_rows pf tipe cols rows dest
                      in (calls, dest', total1, totalPages1, err))))"

section \<open>What the statement builders are specified against\<close>

text \<open>
  The primary key as the specification has it: the \<open>storm\<close> tag of a field is a set of
  directives separated by commas, and the field is a primary-key field when \<open>pk\<close> is one of
  them. \<open>key_fields\<close> are the primary-key fields of a record and \<open>other_fields\<close> its non-key
  fields, each with its value, in declaration order.
\<close>

definition pk_directive :: "StructField \<Rightarrow> bool" where
  "pk_directive field = (''pk'' \<in> set (Split (Tag_Get (Tag field) ''storm'') CHR '',''))"

definition key_fields :: "Struct \<Rightarrow> (StructField \<times> gvalue) list" where
  "key_fields val = filter (\<lambda>(f, v). pk_directive f) (fvals val)"

definition other_fields :: "Struct \<Rightarrow> (StructField \<times> gvalue) list" where
  "other_fields val = filter (\<lambda>(f, v). \<not> pk_directive f) (fvals val)"

text \<open>
  The primary key as the code has it: \<open>is_primary\<close> is the test
  \<^verbatim>\<open>strings.Contains(tag, "pk")\<close> that \<open>Insert\<close>, \<open>Update\<close> and \<open>Delete\<close> make on each field, true
  of every tag in which the letters \<open>pk\<close> occur, as they do in \<open>column:pkg_weight\<close>.
  \<open>primary_keys\<close>, \<open>non_key\<close> and \<open>changed\<close> below are the fields the loops of the code
  pick by that test; they are compared with \<open>key_fields\<close> and \<open>other_fields\<close> in the
  theorems.
\<close>

definition is_primary :: "StructField \<Rightarrow> bool" where
  "is_primary field = Contains (Tag_Get (Tag field) ''storm'') ''pk''"

text \<open>
  The \<open>storm\<close> tag of a field is well formed when it has a colon wherever it contains
  \<open>column\<close>; \<open>column_name\<close> is the column such a field maps to.
\<close>

definition tag_ok :: "StructField \<Rightarrow> bool" where
  "tag_ok field =
     (let tag = Tag_Get (Tag field) ''storm''
      in if Contains tag ''column'' then CHR '':'' \<in> set tag else True)"

definition column_name :: "platform \<Rightarrow> StructField \<Rightarrow> string" where
  "column_name pf field =
     (let tag = Tag_Get (Tag field) ''storm''
      in if Contains tag ''column'' then Split tag CHR '':'' ! 1 else ToLower pf (Name field))"

definition exported :: "StructField \<Rightarrow> bool" where
  "exported field = (PkgPath field = [])"

text \<open>The fields with their positions in the declaration, counted from 0.\<close>

definition numbered :: "Struct \<Rightarrow> (nat \<times> StructField \<times> gvalue) list" where
  "numbered val = enumerate 0 (fvals val)"

definition primary_keys :: "Struct \<Rightarrow> (StructField \<times> gvalue) list" where
  "primary_keys val = filter (\<lambda>(f, v). is_primary f) (fvals val)"

text \<open>The fields \<open>Insert\<close> writes: those that \<open>is_primary\<close> is false of.\<close>

definition non_key :: "Struct \<Rightarrow> (nat \<times> StructField \<times> gvalue) list" where
  "non_key val = filter (\<lambda>(i, f, v). \<not> is_primary f) (numbered val)"

text \<open>The fields \<open>Update\<close> writes: those that \<open>is_primary\<close> is false of and that are not zero.\<close>

definition changed :: "Struct \<Rightarrow> (nat \<times> StructField \<times> gvalue) list" where
  "changed val = filter (\<lambda>(i, f, v). \<not> is_primary f \<and> \<not> IsZero f v) (numbered val)"

definition column_at :: "platform \<Rightarrow> nat \<times> StructField \<times> gvalue \<Rightarrow> string" where
  "column_at pf e = (case e of (i, f, v) \<Rightarrow> column_name pf f)"

definition placeholder_at :: "nat \<times> StructField \<times> gvalue \<Rightarrow> string" where
  "placeholder_at e = (case e of (i, f, v) \<Rightarrow> CHR ''$'' # show_nat i)"

definition fragment_at :: "platform \<Rightarrow> nat \<times> StructField \<times> gvalue \<Rightarrow> string" where
  "fragment_at pf e = (case e of (i, f, v) \<Rightarrow> column_name pf f @ '' = $'' @ show_nat i)"

definition value_at :: "nat \<times> StructField \<times> gvalue \<Rightarrow> gvalue" where
  "value_at e = (case e of (i, f, v) \<Rightarrow> v)"

text \<open>
  What \<open>Insert\<close> and \<open>Update\<close> need of a field not to panic: a well-formed tag on a field
  whose column they compute, and an exported field where they read the value.
\<close>

definition insertable :: "StructField \<times> gvalue \<Rightarrow> bool" where
  "insertable e = (case e of (f, v) \<Rightarrow> if is_primary f then True else tag_ok f \<and> exported f)"

definition updatable :: "StructField \<times> gvalue \<Rightarrow> bool" where
  "updatable e =
     (case e of (f, v) \<Rightarrow>
        if is_primary f then exported f
        else tag_ok f \<and> (if IsZero f v then True else exported f))"

section \<open>What the query builder is specified against\<close>

text \<open>The page and the page size \<open>Paginate\<close> works with, and its offset.\<close>

definition clamped_page :: "64 word \<Rightarrow> 64 word" where
  "clamped_page page = (if page <s 1 then 1 else page)"

definition clamped_pageSize :: "64 word \<Rightarrow> 64 word" where
  "clamped_pageSize pageSize = (if pageSize \<le>s 0 then 1 else pageSize)"

definition Paginate_offset :: "64 word \<Rightarrow> 64 word \<Rightarrow> 64 word" where
  "Paginate_offset page pageSize = (clamped_page page - 1) * clamped_pageSize pageSize"

text \<open>The parts of what \<open>Paginate\<close> returns.\<close>

definition calls_made ::
  "db_call list \<times> Struct list \<times> 64 word \<times> 64 word \<times> error option \<Rightarrow> db_call list" where
  "calls_made r = (case r of (calls, dest, total1, totalPages1, err) \<Rightarrow> calls)"

definition total_set ::
  "db_call list \<times> Struct list \<times> 64 word \<times> 64 word \<times> error option \<Rightarrow> 64 word" where
  "total_set r = (case r of (calls, dest, total1, totalPages1, err) \<Rightarrow> total1)"

definition totalPages_set ::
  "db_call list \<times> Struct list \<times> 64 word \<times> 64 word \<times> error option \<Rightarrow> 64 word" where
  "totalPages_set r = (case r of (calls, dest, total1, totalPages1, err) \<Rightarrow> totalPages1)"

text \<open>A handle whose tables have \<open>n\<close> rows by \<open>COUNT(*)\<close>, and answer no rows.\<close>

definition counting_db :: "64 word \<Rightarrow> DB" where
  "counting_db n = \<lparr>Exec = (\<lambda>q args. None), Query = (\<lambda>q args. Inr ([], [])),
     QueryRow = (\<lambda>q. Inr n)\<rparr>"



section \<open>What the coercion is specified against\<close>

text \<open>
  The value of an integer type that a number \<open>k\<close> becomes when it is converted to the type:
  \<open>k\<close> modulo \<open>2 ^ w\<close> for a type of \<open>w\<close> bits (\<open>word_of_int\<close>). \<open>number\<close> reads a value of
  an integer type back: two's complement for a signed type.
\<close>

fun int_value :: "gotype \<Rightarrow> int \<Rightarrow> gvalue" where
  "int_value TInt k = VInt (word_of_int k)"
| "int_value TInt8 k = VInt8 (word_of_int k)"
| "int_value TInt16 k = VInt16 (word_of_int k)"
| "int_value TInt32 k = VInt32 (word_of_int k)"
| "int_value TInt64 k = VInt64 (word_of_int k)"
| "int_value TUint k = VUint (word_of_int k)"
| "int_value TUint8 k = VUint8 (word_of_int k)"
| "int_value TUint16 k = VUint16 (word_of_int k)"
| "int_value TUint32 k = VUint32 (word_of_int k)"
| "int_value TUint64 k = VUint64 (word_of_int k)"
| "int_value t k = VNil"

fun number :: "gvalue \<Rightarrow> int" where
  "number (VInt w) = sint w"
| "number (VInt8 w) = sint w"
| "number (VInt16 w) = sint w"
| "number (VInt32 w) = sint w"
| "number (VInt64 w) = sint w"
| "number (VUint w) = uint w"
| "number (VUint8 w) = uint w"
| "number (VUint16 w) = uint w"
| "number (VUint32 w) = uint w"
| "number (VUint64 w) = uint w"
| "number v = 0"

fun width :: "gotype \<Rightarrow> nat" where
  "width TInt8 = 8" | "width TUint8 = 8"
| "width TInt16 = 16" | "width TUint16 = 16"
| "width TInt32 = 32" | "width TUint32 = 32"
| "width t = 64"

definition signed_kinds :: "kind list" where
  "signed_kinds = [KInt, KInt8, KInt16, KInt32, KInt64]"

definition unsigned_kinds :: "kind list" where
  "unsigned_kinds = [KUint, KUint8, KUint16, KUint32, KUint64]"

text \<open>What a number becomes in an integer type: wrapped to the range of the type.\<close>

definition wrapped :: "gotype \<Rightarrow> int \<Rightarrow> int" where
  "wrapped t k =
     (if Kind t \<in> set signed_kinds
      then (k + 2 ^ (width t - 1)) mod 2 ^ width t - 2 ^ (width t - 1)
      else k mod 2 ^ width t)"

text \<open>
  A platform for the examples: every conversion out of range gives the least \<open>int64\<close>,
  the bit pattern \<open>0x8000000000000000\<close>. The examples have ASCII names only, so that its
  \<open>unicode_lower\<close> is never reached.
\<close>

definition indefinite :: platform where
  "indefinite = \<lparr>unicode_lower = (\<lambda>s. s),
     int64_out_of_range = (\<lambda>x. 0x8000000000000000),
     uint64_out_of_range = (\<lambda>x. 0x8000000000000000)\<rparr>"

text \<open>A handle that accepts every statement and has no rows.\<close>

definition quiet_db :: DB where
  "quiet_db = \<lparr>Exec = (\<lambda>q args. None), Query = (\<lambda>q args. Inr ([], [])), QueryRow = (\<lambda>q. Inr 0)\<rparr>"

text \<open>The record type \<open>User\<close> of the repository's \<open>models\<close> package.\<close>

definition User_ID :: StructField where
  "User_ID = \<lparr>Name = ''ID'', PkgPath = [], Type = TInt,
     Tag = [(''storm'', ''pk''), (''json'', ''id'')]\<rparr>"

definition User_Name :: StructField where
  "User_Name = \<lparr>Name = ''Name'', PkgPath = [], Type = TString,
     Tag = [(''storm'', ''column:name_user''), (''json'', ''name'')]\<rparr>"

definition User_Email :: StructField where
  "User_Email = \<lparr>Name = ''Email'', PkgPath = [], Type = TString,
     Tag = [(''storm'', ''column:email_user''), (''json'', ''email'')]\<rparr>"

definition User :: StructType where
  "User = \<lparr>sname = ''User'', sfields = [User_ID, User_Name, User_Email]\<rparr>"

definition user :: "64 word \<Rightarrow> string \<Rightarrow> string \<Rightarrow> Struct" where
  "user i n e = \<lparr>tname = ''User'',
     fvals = [(User_ID, VInt i), (User_Name, VString n), (User_Email, VString e)]\<rparr>"

text \<open>
  Four more record types: \<open>Setting\<close>, without a primary key,
  \<^verbatim>\<open>type Setting struct { Key string; Value string }\<close>; \<open>Item\<close>, whose second field
  has a \<open>column\<close> tag with no name,
  \<^verbatim>\<open>type Item struct { ID int `storm:"pk"`; Label string `storm:"column"` }\<close>;
  \<open>Parcel\<close>, with a column whose name has the letters \<open>pk\<close>,
  \<^verbatim>\<open>type Parcel struct { ID int `storm:"pk"`; Weight int `storm:"column:pkg_weight"`; Label string }\<close>;
  and \<open>Account\<close>, whose primary key has a column name of its own,
  \<^verbatim>\<open>type Account struct { ID int `storm:"pk,column:account_id"`; Owner string }\<close>.
\<close>

definition Parcel_ID :: StructField where
  "Parcel_ID = \<lparr>Name = ''ID'', PkgPath = [], Type = TInt, Tag = [(''storm'', ''pk'')]\<rparr>"

definition Parcel_Weight :: StructField where
  "Parcel_Weight = \<lparr>Name = ''Weight'', PkgPath = [], Type = TInt,
     Tag = [(''storm'', ''column:pkg_weight'')]\<rparr>"

definition Parcel_Label :: StructField where
  "Parcel_Label = \<lparr>Name = ''Label'', PkgPath = [], Type = TString, Tag = []\<rparr>"

definition parcel :: "64 word \<Rightarrow> 64 word \<Rightarrow> string \<Rightarrow> Struct" where
  "parcel i w l = \<lparr>tname = ''Parcel'',
     fvals = [(Parcel_ID, VInt i), (Parcel_Weight, VInt w), (Parcel_Label, VString l)]\<rparr>"

definition Account_ID :: StructField where
  "Account_ID = \<lparr>Name = ''ID'', PkgPath = [], Type = TInt,
     Tag = [(''storm'', ''pk,column:account_id'')]\<rparr>"

definition Account_Owner :: StructField where
  "Account_Owner = \<lparr>Name = ''Owner'', PkgPath = [], Type = TString, Tag = []\<rparr>"

definition account :: "64 word \<Rightarrow> string \<Rightarrow> Struct" where
  "account i n = \<lparr>tname = ''Account'', fvals = [(Account_ID, VInt i), (Account_Owner, VString n)]\<rparr>"

definition setting :: "string \<Rightarrow> string \<Rightarrow> Struct" where
  "setting k v = \<lparr>tname = ''Setting'',
     fvals = [(\<lparr>Name = ''Key'', PkgPath = [], Type = TString, Tag = []\<rparr>, VString k),
              (\<lparr>Name = ''Value'', PkgPath = [], Type = TString, Tag = []\<rparr>, VString v)]\<rparr>"

definition item :: "64 word \<Rightarrow> string \<Rightarrow> Struct" where
  "item i l = \<lparr>tname = ''Item'',
     fvals = [(\<lparr>Name = ''ID'', PkgPath = [], Type = TInt, Tag = [(''storm'', ''pk'')]\<rparr>, VInt i),
              (\<lparr>Name = ''Label'', PkgPath = [], Type = TString, Tag = [(''storm'', ''column'')]\<rparr>,
               VString l)]\<rparr>"

section \<open>Theorems on the statement builders\<close>

lemma Split_not_Nil: "Split s sep \<noteq> []"
  by (induction s) (auto split: list.splits)

lemma Split_length: "sep \<in> set s \<Longrightarrow> 2 \<le> length (Split s sep)"
proof (induction s)
  case Nil
  then show ?case by simp
next
  case (Cons c s)
  show ?case
  proof (cases "c = sep")
    case True
    then show ?thesis using Split_not_Nil [of s sep] by (cases "Split s sep") auto
  next
    case False
    with Cons show ?thesis by (auto split: list.splits)
  qed
qed

lemma column_of_ok: "tag_ok f \<Longrightarrow> column_of pf f = Inr (column_name pf f)"
  using Split_length [of "CHR '':''" "Tag_Get (Tag f) ''storm''"]
  by (auto simp: tag_ok_def column_of_def column_name_def index_def Let_def split: if_splits)

lemma Interface_ok: "exported f \<Longrightarrow> Interface f v = Inr v"
  by (simp add: exported_def Interface_def)

lemma Insert_loop_ok:
  "list_all insertable fs \<Longrightarrow>
   Insert_loop pf i fs (cs, ps, vs) =
     (let nk = filter (\<lambda>(i, f, v). \<not> is_primary f) (enumerate i fs)
      in Inr (cs @ map (column_at pf) nk, ps @ map placeholder_at nk, vs @ map value_at nk))"
proof (induction fs arbitrary: i cs ps vs)
  case Nil
  then show ?case by simp
next
  case (Cons a fs)
  obtain f v where a: "a = (f, v)" by (cases a)
  from Cons.prems have rest: "list_all insertable fs" and "insertable a" by simp_all
  then have here: "is_primary f \<or> (tag_ok f \<and> exported f)"
    using a by (auto simp: insertable_def split: if_splits)
  show ?case
  proof (cases "is_primary f")
    case True
    then show ?thesis using Cons.IH [OF rest] a by (simp add: is_primary_def Let_def)
  next
    case False
    with here have "tag_ok f" "exported f" by auto
    then show ?thesis using Cons.IH [OF rest] a False
      by (simp add: is_primary_def [symmetric] column_of_ok Interface_ok Let_def
            column_at_def placeholder_at_def value_at_def)
  qed
qed

lemma HasPrefix_append: "HasPrefix (p @ b) p"
  by (induction p) auto

lemma Contains_append: "Contains (a @ p @ b) p"
proof (induction a)
  case Nil
  show ?case using HasPrefix_append [of p b] by (cases "p @ b") auto
next
  case (Cons c a)
  then show ?case by simp
qed

lemma Split_first_prefix: "Split s sep = q # qs \<Longrightarrow> \<exists>b. s = q @ b"
proof (induction s arbitrary: q qs)
  case Nil
  then show ?case by simp
next
  case (Cons c s)
  then show ?case by (auto split: if_splits list.splits)
qed

lemma Split_piece: "p \<in> set (Split s sep) \<Longrightarrow> \<exists>a b. s = a @ p @ b"
proof (induction s arbitrary: p)
  case Nil
  then show ?case by simp
next
  case (Cons c s)
  show ?case
  proof (cases "c = sep")
    case True
    with Cons.prems have "p = [] \<or> p \<in> set (Split s sep)" by simp
    then show ?thesis
    proof
      assume "p = []"
      then have "c # s = [] @ p @ (c # s)" by simp
      then show ?thesis by blast
    next
      assume "p \<in> set (Split s sep)"
      from Cons.IH [OF this] obtain a b where "s = a @ p @ b" by blast
      then have "c # s = (c # a) @ p @ b" by simp
      then show ?thesis by blast
    qed
  next
    case False
    obtain q qs where sp: "Split s sep = q # qs"
      using Split_not_Nil [of s sep] by (cases "Split s sep") auto
    with False Cons.prems have "p = c # q \<or> p \<in> set qs" by simp
    then show ?thesis
    proof
      assume p: "p = c # q"
      from Split_first_prefix [OF sp] obtain b where "s = q @ b" by blast
      with p have "c # s = [] @ p @ b" by simp
      then show ?thesis by blast
    next
      assume "p \<in> set qs"
      with sp have "p \<in> set (Split s sep)" by simp
      from Cons.IH [OF this] obtain a b where "s = a @ p @ b" by blast
      then have "c # s = (c # a) @ p @ b" by simp
      then show ?thesis by blast
    qed
  qed
qed

text \<open>A field with the directive \<open>pk\<close> passes the test of the code; \<open>Parcel\<close> shows that the converse fails.\<close>

lemma pk_directive_is_primary: "pk_directive f \<Longrightarrow> is_primary f"
  using Split_piece [of "''pk''" "Tag_Get (Tag f) ''storm''" "CHR '',''"] Contains_append [of _ "''pk''"]
  by (auto simp: pk_directive_def is_primary_def)

lemma filter_enumerate_snd:
  "map snd (filter (\<lambda>(i, e). P e) (enumerate n xs)) = filter P xs"
  by (induction xs arbitrary: n) auto

lemma length_filter_enumerate:
  "length (filter (\<lambda>(i, f, v). P f v) (enumerate n xs)) = length (filter (\<lambda>(f, v). P f v) xs)"
  by (induction xs arbitrary: n) auto

lemma value_at_filter_enumerate:
  "map value_at (filter (\<lambda>(i, f, v). P f v) (enumerate n xs)) = map snd (filter (\<lambda>(f, v). P f v) xs)"
  by (induction xs arbitrary: n) (auto simp: value_at_def)

lemma Delete_loop_no_pk:
  "list_all (\<lambda>(f, v). \<not> is_primary f) fs \<Longrightarrow> Delete_loop fs st = Inr st"
proof (induction fs arbitrary: st)
  case Nil
  then show ?case by simp
next
  case (Cons a fs)
  obtain f v where a: "a = (f, v)" by (cases a)
  obtain pc pkf pkv where st: "st = (pc, pkf, pkv)" by (cases st)
  from Cons a st show ?case by (simp add: is_primary_def)
qed

lemma primary_keys_Nil: "primary_keys val = [] \<Longrightarrow> list_all (\<lambda>(f, v). \<not> is_primary f) (fvals val)"
  by (auto simp: primary_keys_def filter_empty_conv list_all_iff)

text \<open>
  C1 (the code departs from the claim). The claim: on a record without a primary-key field,
  \<open>Delete\<close> returns a missing-primary-key error and performs no \<open>Exec\<close>. The code has no
  such check (\<open>Update\<close> has one): for every record without a primary-key field, none of
  whose tags contains \<open>pk\<close>, \<open>Delete\<close> performs exactly one \<open>Exec\<close>, of the statement
  \<open>DELETE FROM <table> WHERE  = $0\<close> with the nil interface as its only argument, and
  returns whatever the driver answers.
\<close>

theorem Delete_without_primary_key_issues_Exec:
  assumes "primary_keys val = []"
  shows "Delete pf db val =
           ([ExecCall (Delete_sql (table_name pf (tname val)) [] 0) [VNil]],
            err_of (Exec db (Delete_sql (table_name pf (tname val)) [] 0) [VNil]))"
  using Delete_loop_no_pk [OF primary_keys_Nil [OF assms]] by (simp add: Delete_def Let_def)

theorem Delete_without_primary_key_issues_Exec_witness:
  "primary_keys (setting ''theme'' ''dark'') = [] \<and>
   Delete indefinite quiet_db (setting ''theme'' ''dark'') =
     ([ExecCall ([CHR 0x0A, CHR 0x09] @ ''DELETE FROM settings WHERE  = $0'' @ [CHR 0x0A, CHR 0x09])
         [VNil]], None)"
proof -
  have h: "primary_keys (setting ''theme'' ''dark'') = []"
    by (simp add: primary_keys_def setting_def is_primary_def Tag_Get_def Tag_Lookup_def)
  show ?thesis
    using h Delete_without_primary_key_issues_Exec [OF h, where pf = indefinite and db = quiet_db]
    by (simp add: Delete_sql_def table_name_def setting_def ToLower_def isASCII_def lower_char_def
          show_nat.simps digit_char_def quiet_db_def err_of_def)
qed

text \<open>
  \<open>Delete\<close> has no branch that returns without an \<open>Exec\<close>: on every record whose fields
  with \<open>pk\<close> in their tag are exported it performs exactly one, with the Go name and the
  value of the last such field, whether or not one of them is a primary-key field.
\<close>

lemma Delete_loop_ok:
  "list_all (\<lambda>(f, v). is_primary f \<longrightarrow> exported f) fs \<Longrightarrow>
   Delete_loop fs (pc, pkf, pkv) =
     (let pks = filter (\<lambda>(f, v). is_primary f) fs
      in Inr (pc + length pks,
              (if pks = [] then pkf else Name (fst (last pks))),
              (if pks = [] then pkv else snd (last pks))))"
proof (induction fs arbitrary: pc pkf pkv)
  case Nil
  then show ?case by simp
next
  case (Cons a fs)
  obtain f v where a: "a = (f, v)" by (cases a)
  from Cons.prems have rest: "list_all (\<lambda>(f, v). is_primary f \<longrightarrow> exported f) fs"
    and here: "is_primary f \<longrightarrow> exported f" using a by simp_all
  show ?case
  proof (cases "is_primary f")
    case True
    with here have "exported f" by simp
    then show ?thesis using Cons.IH [OF rest] a True
      by (simp add: is_primary_def [symmetric] Interface_ok Let_def)
  next
    case False
    then show ?thesis using Cons.IH [OF rest] a
      by (simp add: is_primary_def [symmetric] Let_def)
  qed
qed

lemma Delete_performs_one_Exec:
  assumes "list_all (\<lambda>(f, v). is_primary f \<longrightarrow> exported f) (fvals val)"
  shows "Delete pf db val =
           ([ExecCall (Delete_sql (table_name pf (tname val))
                         (if primary_keys val = [] then [] else Name (fst (last (primary_keys val))))
                         (length (primary_keys val)))
               [if primary_keys val = [] then VNil else snd (last (primary_keys val))]],
            err_of (Exec db (Delete_sql (table_name pf (tname val))
                               (if primary_keys val = [] then []
                                else Name (fst (last (primary_keys val))))
                               (length (primary_keys val)))
                      [if primary_keys val = [] then VNil else snd (last (primary_keys val))]))"
  using Delete_loop_ok [OF assms, of 0 "[]" VNil]
  by (simp add: Delete_def Let_def primary_keys_def)

lemma filter_non_primary_other:
  "filter (\<lambda>(f, v). \<not> is_primary f \<and> Q f v) xs =
   filter (\<lambda>(f, v). \<not> is_primary f \<and> Q f v) (filter (\<lambda>(f, v). \<not> pk_directive f) xs)"
  by (induction xs) (auto dest: pk_directive_is_primary)

lemma length_filter_eq_iff: "length (filter P xs) = length xs \<longleftrightarrow> list_all P xs"
proof (induction xs)
  case Nil
  then show ?case by simp
next
  case (Cons x xs)
  have "length (filter P xs) < Suc (length xs)"
    using length_filter_le [of P xs] by (simp only: less_Suc_eq_le)
  with Cons show ?case by auto
qed

lemma primary_keys_key_fields:
  "list_all (\<lambda>(f, v). \<not> is_primary f) (filter (\<lambda>(f, v). \<not> pk_directive f) xs) \<Longrightarrow>
   filter (\<lambda>(f, v). is_primary f) xs = filter (\<lambda>(f, v). pk_directive f) xs"
  by (induction xs) (auto dest: pk_directive_is_primary)

text \<open>
  C3 (the code departs from the claim). The claim: for a record with one primary-key
  field and \<open>N\<close> non-key fields, \<open>Insert\<close> lists \<open>N\<close> columns, \<open>N\<close> placeholders and \<open>N\<close>
  arguments, the values of the non-key fields in declaration order. The code skips a field
  when the letters \<open>pk\<close> occur anywhere in its tag, not when \<open>pk\<close> is a directive of the tag.
  So, for every record whose fields \<open>Insert\<close> can read (those it does not skip exported and
  with a well-formed tag), \<open>Insert\<close> performs one \<open>Exec\<close> of
  \<open>INSERT INTO <table> (<columns>) VALUES (<placeholders>)\<close> whose columns, placeholders and
  arguments are each read off the same list, the fields whose tag does not contain \<open>pk\<close>, in
  declaration order; the arguments are the values of the non-key fields whose tag does not
  contain \<open>pk\<close>; and there are \<open>N\<close> of them exactly when no non-key field has \<open>pk\<close> in its
  tag, fewer otherwise. The placeholder of a field is \<open>$i\<close> for its position \<open>i\<close> in the
  declaration, counted from 0. For \<open>Parcel\<close>, with one primary-key field and two non-key
  fields, the statement has the one column \<open>label\<close>: see the witness.
\<close>

theorem Insert_lists_fields_without_pk_in_tag:
  assumes "list_all insertable (fvals val)"
  shows "Insert pf db val =
           ([ExecCall (Insert_sql (table_name pf (tname val)) (map (column_at pf) (non_key val))
                         (map placeholder_at (non_key val)))
               (map value_at (non_key val))],
            err_of (Exec db (Insert_sql (table_name pf (tname val)) (map (column_at pf) (non_key val))
                               (map placeholder_at (non_key val)))
                      (map value_at (non_key val))))
         \<and> length (map (column_at pf) (non_key val)) = length (non_key val)
         \<and> length (map placeholder_at (non_key val)) = length (non_key val)
         \<and> length (map value_at (non_key val)) = length (non_key val)
         \<and> map value_at (non_key val) =
             map snd (filter (\<lambda>(f, v). \<not> is_primary f) (other_fields val))
         \<and> length (non_key val) \<le> length (other_fields val)
         \<and> (length (non_key val) = length (other_fields val)) =
             list_all (\<lambda>(f, v). \<not> is_primary f) (other_fields val)"
proof -
  have l: "length (non_key val) =
      length (filter (\<lambda>(f, v). \<not> is_primary f) (other_fields val))"
    using length_filter_enumerate [of "\<lambda>f v. \<not> is_primary f" 0 "fvals val"]
      filter_non_primary_other [of "\<lambda>f v. True" "fvals val"]
    by (simp add: non_key_def numbered_def other_fields_def)
  have le: "length (non_key val) \<le> length (other_fields val)"
    unfolding l by (rule length_filter_le)
  have eq: "(length (non_key val) = length (other_fields val)) =
      list_all (\<lambda>(f, v). \<not> is_primary f) (other_fields val)"
    unfolding l by (rule length_filter_eq_iff)
  have v: "map value_at (non_key val) =
      map snd (filter (\<lambda>(f, v). \<not> is_primary f) (other_fields val))"
    using value_at_filter_enumerate [of "\<lambda>f v. \<not> is_primary f" 0 "fvals val"]
      filter_non_primary_other [of "\<lambda>f v. True" "fvals val"]
    by (simp add: non_key_def numbered_def other_fields_def)
  have i: "Insert pf db val =
           ([ExecCall (Insert_sql (table_name pf (tname val)) (map (column_at pf) (non_key val))
                         (map placeholder_at (non_key val)))
               (map value_at (non_key val))],
            err_of (Exec db (Insert_sql (table_name pf (tname val)) (map (column_at pf) (non_key val))
                               (map placeholder_at (non_key val)))
                      (map value_at (non_key val))))"
    using Insert_loop_ok [OF assms, where pf = pf and i = 0 and cs = "[]" and ps = "[]" and vs = "[]"]
    by (simp add: Insert_def Let_def non_key_def numbered_def)
  show ?thesis by (intro conjI i v le eq length_map)
qed

theorem Insert_lists_fields_without_pk_in_tag_witness:
  "list_all insertable (fvals (parcel 1 3 ''fragile'')) \<and>
   length (key_fields (parcel 1 3 ''fragile'')) = 1 \<and>
   length (other_fields (parcel 1 3 ''fragile'')) = 2 \<and>
   Insert indefinite quiet_db (parcel 1 3 ''fragile'') =
     ([ExecCall ''INSERT INTO parcels (label) VALUES ($2)'' [VString ''fragile'']], None) \<and>
   list_all insertable (fvals (user 0 ''aji'' ''aji@handsome.com'')) \<and>
   length (key_fields (user 0 ''aji'' ''aji@handsome.com'')) = 1 \<and>
   length (other_fields (user 0 ''aji'' ''aji@handsome.com'')) = 2 \<and>
   Insert indefinite quiet_db (user 0 ''aji'' ''aji@handsome.com'') =
     ([ExecCall ''INSERT INTO users (name_user, email_user) VALUES ($1, $2)''
         [VString ''aji'', VString ''aji@handsome.com'']], None)"
proof -
  let ?p = "parcel 1 3 ''fragile''"
  let ?u = "user 0 ''aji'' ''aji@handsome.com''"
  have g1: "list_all insertable (fvals ?p)"
    by (simp add: insertable_def parcel_def is_primary_def Tag_Get_def Tag_Lookup_def
          Parcel_ID_def Parcel_Weight_def Parcel_Label_def tag_ok_def exported_def)
  have g2: "length (key_fields ?p) = 1"
    by (simp add: key_fields_def parcel_def pk_directive_def Tag_Get_def Tag_Lookup_def
          Parcel_ID_def Parcel_Weight_def Parcel_Label_def)
  have g3: "length (other_fields ?p) = 2"
    by (simp add: other_fields_def parcel_def pk_directive_def Tag_Get_def Tag_Lookup_def
          Parcel_ID_def Parcel_Weight_def Parcel_Label_def)
  have pnk: "non_key ?p = [(2, Parcel_Label, VString ''fragile'')]"
    by (simp add: non_key_def numbered_def parcel_def is_primary_def Tag_Get_def Tag_Lookup_def
          Parcel_ID_def Parcel_Weight_def Parcel_Label_def enumerate_eq_zip upt_rec)
  have pc: "map (column_at indefinite) (non_key ?p) = [''label'']"
    by (simp add: pnk column_at_def column_name_def Parcel_Label_def Tag_Get_def Tag_Lookup_def
          ToLower_def isASCII_def lower_char_def)
  have pp: "map placeholder_at (non_key ?p) = [''$2'']"
    by (simp add: pnk placeholder_at_def show_nat.simps digit_char_def)
  have pa: "map value_at (non_key ?p) = [VString ''fragile'']"
    by (simp add: pnk value_at_def)
  have pt: "table_name indefinite (tname ?p) = ''parcels''"
    by (simp add: table_name_def parcel_def ToLower_def isASCII_def lower_char_def)
  have pq: "Insert_sql ''parcels'' [''label''] [''$2''] = ''INSERT INTO parcels (label) VALUES ($2)''"
    by (simp add: Insert_sql_def)
  have r1: "Insert indefinite quiet_db ?p =
      ([ExecCall ''INSERT INTO parcels (label) VALUES ($2)'' [VString ''fragile'']], None)"
    using Insert_lists_fields_without_pk_in_tag [OF g1, where pf = indefinite and db = quiet_db]
    unfolding pc pp pa pt pq by (simp add: quiet_db_def err_of_def)
  have h1: "list_all insertable (fvals ?u)"
    by (simp add: insertable_def user_def is_primary_def Tag_Get_def Tag_Lookup_def
          User_ID_def User_Name_def User_Email_def tag_ok_def exported_def)
  have h2: "length (key_fields ?u) = 1"
    by (simp add: key_fields_def user_def pk_directive_def Tag_Get_def Tag_Lookup_def
          User_ID_def User_Name_def User_Email_def)
  have h3: "length (other_fields ?u) = 2"
    by (simp add: other_fields_def user_def pk_directive_def Tag_Get_def Tag_Lookup_def
          User_ID_def User_Name_def User_Email_def)
  have nk: "non_key ?u = [(1, User_Name, VString ''aji''), (2, User_Email, VString ''aji@handsome.com'')]"
    by (simp add: non_key_def numbered_def user_def is_primary_def Tag_Get_def Tag_Lookup_def
          User_ID_def User_Name_def User_Email_def enumerate_eq_zip upt_rec)
  have c: "map (column_at indefinite) (non_key ?u) = [''name_user'', ''email_user'']"
    by (simp add: nk column_at_def column_name_def User_Name_def User_Email_def Tag_Get_def
          Tag_Lookup_def)
  have p: "map placeholder_at (non_key ?u) = [''$1'', ''$2'']"
    by (simp add: nk placeholder_at_def show_nat.simps digit_char_def)
  have a: "map value_at (non_key ?u) = [VString ''aji'', VString ''aji@handsome.com'']"
    by (simp add: nk value_at_def)
  have t: "table_name indefinite (tname ?u) = ''users''"
    by (simp add: table_name_def user_def ToLower_def isASCII_def lower_char_def)
  have q: "Insert_sql ''users'' [''name_user'', ''email_user''] [''$1'', ''$2''] =
      ''INSERT INTO users (name_user, email_user) VALUES ($1, $2)''"
    by (simp add: Insert_sql_def)
  have r2: "Insert indefinite quiet_db ?u =
      ([ExecCall ''INSERT INTO users (name_user, email_user) VALUES ($1, $2)''
         [VString ''aji'', VString ''aji@handsome.com'']], None)"
    using Insert_lists_fields_without_pk_in_tag [OF h1, where pf = indefinite and db = quiet_db]
    unfolding c p a t q by (simp add: quiet_db_def err_of_def)
  show ?thesis by (intro conjI g1 g2 g3 r1 h1 h2 h3 r2)
qed

text \<open>
  A record that \<open>Insert\<close> cannot read: \<open>Item\<close> has one primary-key field and one non-key
  field, and \<open>Insert\<close> panics at \<^verbatim>\<open>strings.Split(tag, ":")[1]\<close> on the field \<open>Label\<close>, whose
  tag \<open>column\<close> has no colon, before any statement is built.
\<close>

theorem Insert_panics_on_column_tag_without_name:
  "length (key_fields (item 1 ''pen'')) = 1 \<and> length (other_fields (item 1 ''pen'')) = 1 \<and>
   Insert indefinite quiet_db (item 1 ''pen'') = ([], Some (PanicIndexOutOfRange 1 1))"
  by (simp add: key_fields_def other_fields_def pk_directive_def item_def Tag_Get_def
        Tag_Lookup_def Insert_def column_of_def index_def)

lemma Update_loop_ok:
  "list_all updatable fs \<Longrightarrow>
   Update_loop pf i fs (pc, sc, vs, pkf, pkv) =
     (let ch = filter (\<lambda>(i, f, v). \<not> is_primary f \<and> \<not> IsZero f v) (enumerate i fs);
          pks = filter (\<lambda>(f, v). is_primary f) fs
      in Inr (pc + length ch, sc @ map (fragment_at pf) ch, vs @ map value_at ch,
              (if pks = [] then pkf else Name (fst (last pks))),
              (if pks = [] then pkv else snd (last pks))))"
proof (induction fs arbitrary: i pc sc vs pkf pkv)
  case Nil
  then show ?case by simp
next
  case (Cons a fs)
  obtain f v where a: "a = (f, v)" by (cases a)
  from Cons.prems have rest: "list_all updatable fs" and "updatable a" by simp_all
  then have here: "if is_primary f then exported f
                   else tag_ok f \<and> (if IsZero f v then True else exported f)"
    using a by (simp add: updatable_def)
  show ?case
  proof (cases "is_primary f")
    case True
    with here have "exported f" by simp
    then show ?thesis using Cons.IH [OF rest] a True
      by (simp add: is_primary_def [symmetric] Interface_ok Let_def)
  next
    case False
    note np = this
    with here have tag: "tag_ok f" by simp
    show ?thesis
    proof (cases "IsZero f v")
      case True
      then show ?thesis using Cons.IH [OF rest] a np tag
        by (simp add: is_primary_def [symmetric] column_of_ok Let_def)
    next
      case False
      with here np have "exported f" by simp
      then show ?thesis using Cons.IH [OF rest] a np tag False
        by (simp add: is_primary_def [symmetric] column_of_ok Interface_ok Let_def
              fragment_at_def value_at_def)
    qed
  qed
qed

text \<open>
  C6 (the code departs from the claim). The claim: for a record with one primary-key
  field, \<open>Update\<close> emits \<open>UPDATE <table> SET <fragments> WHERE <pk_column> = $<n>\<close> with the
  non-zero non-key values in declaration order and the primary-key value last, and it
  returns a missing-key error when there is no primary-key field. The code takes for the
  key every field in whose tag the letters \<open>pk\<close> occur, the last of them winning, and it
  writes the Go name of that field, not its column, after \<open>WHERE\<close>. So, for every record
  whose fields \<open>Update\<close> can read (well-formed tags on the fields it writes; the fields it
  takes for keys and the non-zero fields exported):
  \<^item> when some tag contains \<open>pk\<close>, \<open>Update\<close> performs one \<open>Exec\<close> of
    \<open>UPDATE <table> SET <fragments> WHERE <name> = $<n>\<close>, where \<open><name>\<close> is the Go name of
    the last field whose tag contains \<open>pk\<close>, \<open>n\<close> is one more than the number of
    fragments, and the arguments are the values the fragments are for, followed by the
    value of that field;
  \<^item> when no tag contains \<open>pk\<close>, it returns the error \<open>no primary key is found for update\<close>
    and performs no call;
  \<^item> the fragments are for the non-zero non-key fields whose tag does not contain \<open>pk\<close>, in
    declaration order;
  \<^item> when no non-key field has \<open>pk\<close> in its tag, the fields the code takes for keys are
    the primary-key fields.

  For \<open>Parcel\<close> the statement is \<open>UPDATE parcels SET label = $2 WHERE Weight = $2\<close>, with
  the weight, not the primary key, as its last argument; for \<open>Account\<close>, whose primary key
  has the column \<open>account_id\<close>, it is \<open>UPDATE accounts SET owner = $1 WHERE ID = $2\<close>: see
  the witness.
\<close>

theorem Update_takes_last_field_with_pk_in_tag:
  assumes "list_all updatable (fvals val)"
  shows "(primary_keys val \<noteq> [] \<and> Name (fst (last (primary_keys val))) \<noteq> [] \<longrightarrow>
            Update pf db val =
              ([ExecCall (Update_sql (table_name pf (tname val)) (map (fragment_at pf) (changed val))
                            (Name (fst (last (primary_keys val)))) (Suc (length (changed val))))
                  (map value_at (changed val) @ [snd (last (primary_keys val))])],
               err_of (Exec db (Update_sql (table_name pf (tname val))
                                  (map (fragment_at pf) (changed val))
                                  (Name (fst (last (primary_keys val))))
                                  (Suc (length (changed val))))
                         (map value_at (changed val) @ [snd (last (primary_keys val))]))))
       \<and> (primary_keys val = [] \<longrightarrow>
            Update pf db val = ([], Some (Error ''no primary key is found for update'')))
       \<and> map value_at (changed val) =
           map snd (filter (\<lambda>(f, v). \<not> is_primary f \<and> \<not> IsZero f v) (other_fields val))
       \<and> (list_all (\<lambda>(f, v). \<not> is_primary f) (other_fields val) \<longrightarrow>
            primary_keys val = key_fields val)"
proof -
  have v: "map value_at (changed val) =
      map snd (filter (\<lambda>(f, v). \<not> is_primary f \<and> \<not> IsZero f v) (other_fields val))"
    using value_at_filter_enumerate [of "\<lambda>f v. \<not> is_primary f \<and> \<not> IsZero f v" 0 "fvals val"]
      filter_non_primary_other [of "\<lambda>f v. \<not> IsZero f v" "fvals val"]
    by (simp add: changed_def numbered_def other_fields_def)
  have k: "list_all (\<lambda>(f, v). \<not> is_primary f) (other_fields val) \<longrightarrow>
      primary_keys val = key_fields val"
    using primary_keys_key_fields [of "fvals val"]
    by (simp add: primary_keys_def key_fields_def other_fields_def)
  have u: "primary_keys val \<noteq> [] \<and> Name (fst (last (primary_keys val))) \<noteq> [] \<longrightarrow>
            Update pf db val =
              ([ExecCall (Update_sql (table_name pf (tname val)) (map (fragment_at pf) (changed val))
                            (Name (fst (last (primary_keys val)))) (Suc (length (changed val))))
                  (map value_at (changed val) @ [snd (last (primary_keys val))])],
               err_of (Exec db (Update_sql (table_name pf (tname val))
                                  (map (fragment_at pf) (changed val))
                                  (Name (fst (last (primary_keys val))))
                                  (Suc (length (changed val))))
                         (map value_at (changed val) @ [snd (last (primary_keys val))])))"
    using Update_loop_ok [OF assms, where pf = pf and i = 0 and pc = 1 and sc = "[]" and vs = "[]"
        and pkf = "[]" and pkv = VNil]
    by (simp add: Update_def Let_def primary_keys_def changed_def numbered_def)
  have e: "primary_keys val = [] \<longrightarrow>
            Update pf db val = ([], Some (Error ''no primary key is found for update''))"
    using Update_loop_ok [OF assms, where pf = pf and i = 0 and pc = 1 and sc = "[]" and vs = "[]"
        and pkf = "[]" and pkv = VNil]
    by (simp add: Update_def Let_def primary_keys_def changed_def numbered_def)
  show ?thesis by (intro conjI u e v k)
qed

theorem Update_takes_last_field_with_pk_in_tag_witness:
  "list_all updatable (fvals (parcel 1 3 ''fragile'')) \<and>
   key_fields (parcel 1 3 ''fragile'') = [(Parcel_ID, VInt 1)] \<and>
   primary_keys (parcel 1 3 ''fragile'') = [(Parcel_ID, VInt 1), (Parcel_Weight, VInt 3)] \<and>
   column_name indefinite Parcel_ID = ''id'' \<and>
   Update indefinite quiet_db (parcel 1 3 ''fragile'') =
     ([ExecCall ([CHR 0x0A, CHR 0x09, CHR 0x09] @ ''UPDATE parcels SET label = $2 WHERE Weight = $2''
                   @ [CHR 0x0A, CHR 0x09])
         [VString ''fragile'', VInt 3]], None) \<and>
   list_all updatable (fvals (account 7 ''aji'')) \<and>
   key_fields (account 7 ''aji'') = [(Account_ID, VInt 7)] \<and>
   primary_keys (account 7 ''aji'') = [(Account_ID, VInt 7)] \<and>
   column_name indefinite Account_ID = ''account_id'' \<and>
   Update indefinite quiet_db (account 7 ''aji'') =
     ([ExecCall ([CHR 0x0A, CHR 0x09, CHR 0x09] @ ''UPDATE accounts SET owner = $1 WHERE ID = $2''
                   @ [CHR 0x0A, CHR 0x09])
         [VString ''aji'', VInt 7]], None) \<and>
   list_all updatable (fvals (setting ''theme'' ''dark'')) \<and>
   key_fields (setting ''theme'' ''dark'') = [] \<and>
   primary_keys (setting ''theme'' ''dark'') = [] \<and>
   Update indefinite quiet_db (setting ''theme'' ''dark'') =
     ([], Some (Error ''no primary key is found for update''))"
proof -
  let ?p = "parcel 1 3 ''fragile''"
  let ?a = "account 7 ''aji''"
  let ?s = "setting ''theme'' ''dark''"
  have p1: "list_all updatable (fvals ?p)"
    by (simp add: updatable_def IsZero_def parcel_def is_primary_def Tag_Get_def Tag_Lookup_def
          Parcel_ID_def Parcel_Weight_def Parcel_Label_def tag_ok_def exported_def)
  have p2: "key_fields ?p = [(Parcel_ID, VInt 1)]"
    by (simp add: key_fields_def parcel_def pk_directive_def Tag_Get_def Tag_Lookup_def
          Parcel_ID_def Parcel_Weight_def Parcel_Label_def)
  have p3: "primary_keys ?p = [(Parcel_ID, VInt 1), (Parcel_Weight, VInt 3)]"
    by (simp add: primary_keys_def parcel_def is_primary_def Tag_Get_def Tag_Lookup_def
          Parcel_ID_def Parcel_Weight_def Parcel_Label_def)
  have p4: "column_name indefinite Parcel_ID = ''id''"
    by (simp add: column_name_def Parcel_ID_def Tag_Get_def Tag_Lookup_def
          ToLower_def isASCII_def lower_char_def)
  have pch: "changed ?p = [(2, Parcel_Label, VString ''fragile'')]"
    by (simp add: changed_def IsZero_def numbered_def parcel_def is_primary_def Tag_Get_def
          Tag_Lookup_def Parcel_ID_def Parcel_Weight_def Parcel_Label_def enumerate_eq_zip upt_rec)
  have pf: "map (fragment_at indefinite) (changed ?p) = [''label = $2'']"
    by (simp add: pch fragment_at_def column_name_def Parcel_Label_def Tag_Get_def Tag_Lookup_def
          ToLower_def isASCII_def lower_char_def show_nat.simps digit_char_def)
  have pa: "map value_at (changed ?p) = [VString ''fragile'']"
    by (simp add: pch value_at_def)
  have pt: "table_name indefinite (tname ?p) = ''parcels''"
    by (simp add: table_name_def parcel_def ToLower_def isASCII_def lower_char_def)
  have pl: "length (changed ?p) = length [(1::nat)]" by (simp add: pch)
  have pn: "Name (fst (last (primary_keys ?p))) = ''Weight''"
    and pv: "snd (last (primary_keys ?p)) = VInt 3"
    by (simp_all add: p3 Parcel_Weight_def)
  have pq: "Update_sql ''parcels'' [''label = $2''] ''Weight'' (Suc (length [(1::nat)])) =
      [CHR 0x0A, CHR 0x09, CHR 0x09] @ ''UPDATE parcels SET label = $2 WHERE Weight = $2''
        @ [CHR 0x0A, CHR 0x09]"
    by (simp add: Update_sql_def show_nat.simps digit_char_def)
  have pk: "primary_keys ?p \<noteq> []" by (simp add: p3)
  have p5: "Update indefinite quiet_db ?p =
     ([ExecCall ([CHR 0x0A, CHR 0x09, CHR 0x09] @ ''UPDATE parcels SET label = $2 WHERE Weight = $2''
                   @ [CHR 0x0A, CHR 0x09])
         [VString ''fragile'', VInt 3]], None)"
    using Update_takes_last_field_with_pk_in_tag [OF p1, where pf = indefinite and db = quiet_db] pk
    unfolding pn pv pf pa pt pl pq by (simp add: quiet_db_def err_of_def)
  have a1: "list_all updatable (fvals ?a)"
    by (simp add: updatable_def IsZero_def account_def is_primary_def Tag_Get_def Tag_Lookup_def
          Account_ID_def Account_Owner_def tag_ok_def exported_def)
  have a2: "key_fields ?a = [(Account_ID, VInt 7)]"
    by (simp add: key_fields_def account_def pk_directive_def Tag_Get_def Tag_Lookup_def
          Account_ID_def Account_Owner_def)
  have a3: "primary_keys ?a = [(Account_ID, VInt 7)]"
    by (simp add: primary_keys_def account_def is_primary_def Tag_Get_def Tag_Lookup_def
          Account_ID_def Account_Owner_def)
  have a4: "column_name indefinite Account_ID = ''account_id''"
    by (simp add: column_name_def Account_ID_def Tag_Get_def Tag_Lookup_def)
  have ach: "changed ?a = [(1, Account_Owner, VString ''aji'')]"
    by (simp add: changed_def IsZero_def numbered_def account_def is_primary_def Tag_Get_def
          Tag_Lookup_def Account_ID_def Account_Owner_def enumerate_eq_zip upt_rec)
  have af: "map (fragment_at indefinite) (changed ?a) = [''owner = $1'']"
    by (simp add: ach fragment_at_def column_name_def Account_Owner_def Tag_Get_def Tag_Lookup_def
          ToLower_def isASCII_def lower_char_def show_nat.simps digit_char_def)
  have aa: "map value_at (changed ?a) = [VString ''aji'']"
    by (simp add: ach value_at_def)
  have at: "table_name indefinite (tname ?a) = ''accounts''"
    by (simp add: table_name_def account_def ToLower_def isASCII_def lower_char_def)
  have al: "length (changed ?a) = length [(1::nat)]" by (simp add: ach)
  have an: "Name (fst (last (primary_keys ?a))) = ''ID''"
    and av: "snd (last (primary_keys ?a)) = VInt 7"
    by (simp_all add: a3 Account_ID_def)
  have aq: "Update_sql ''accounts'' [''owner = $1''] ''ID'' (Suc (length [(1::nat)])) =
      [CHR 0x0A, CHR 0x09, CHR 0x09] @ ''UPDATE accounts SET owner = $1 WHERE ID = $2''
        @ [CHR 0x0A, CHR 0x09]"
    by (simp add: Update_sql_def show_nat.simps digit_char_def)
  have ak: "primary_keys ?a \<noteq> []" by (simp add: a3)
  have a5: "Update indefinite quiet_db ?a =
     ([ExecCall ([CHR 0x0A, CHR 0x09, CHR 0x09] @ ''UPDATE accounts SET owner = $1 WHERE ID = $2''
                   @ [CHR 0x0A, CHR 0x09])
         [VString ''aji'', VInt 7]], None)"
    using Update_takes_last_field_with_pk_in_tag [OF a1, where pf = indefinite and db = quiet_db] ak
    unfolding an av af aa at al aq by (simp add: quiet_db_def err_of_def)
  have s1: "list_all updatable (fvals ?s)"
    by (simp add: updatable_def IsZero_def setting_def is_primary_def Tag_Get_def Tag_Lookup_def
          tag_ok_def exported_def)
  have s2: "key_fields ?s = []"
    by (simp add: key_fields_def setting_def pk_directive_def Tag_Get_def Tag_Lookup_def)
  have s3: "primary_keys ?s = []"
    by (simp add: primary_keys_def setting_def is_primary_def Tag_Get_def Tag_Lookup_def)
  have s4: "Update indefinite quiet_db ?s = ([], Some (Error ''no primary key is found for update''))"
    using Update_takes_last_field_with_pk_in_tag [OF s1, where pf = indefinite and db = quiet_db] s3
    by simp
  show ?thesis by (intro conjI p1 p2 p3 p4 p5 a1 a2 a3 a4 a5 s1 s2 s3 s4)
qed

text \<open>
  A record that \<open>Update\<close> cannot read: \<open>Item\<close> has one primary-key field, and \<open>Update\<close>
  panics on the field \<open>Label\<close>, whose tag \<open>column\<close> has no colon, emitting no statement.
\<close>

theorem Update_panics_on_column_tag_without_name:
  "length (key_fields (item 1 ''pen'')) = 1 \<and>
   Update indefinite quiet_db (item 1 ''pen'') = ([], Some (PanicIndexOutOfRange 1 1))"
  by (simp add: key_fields_def pk_directive_def item_def Tag_Get_def Tag_Lookup_def Update_def
        column_of_def index_def Interface_def)

section \<open>Theorems on the coercion\<close>

lemma ucast_word_of_int_down:
  "LENGTH('b) \<le> LENGTH('a) \<Longrightarrow>
   (ucast (word_of_int k :: 'a::len word) :: 'b::len word) = word_of_int k"
  by (rule bit_word_eqI) (auto simp: bit_simps)

lemma ucast_eq_word_of_int_sint:
  "LENGTH('b) \<le> LENGTH('a) \<Longrightarrow>
   (ucast (w :: 'a::len word) :: 'b::len word) = word_of_int (sint w)"
  using ucast_word_of_int_down [of "sint w", where 'a = 'a and 'b = 'b] by simp

lemma scast_eq_word_of_int_sint:
  "(scast (w :: 'a::len word) :: 'b::len word) = word_of_int (sint w)"
  by (simp add: signed_of_int [symmetric])

lemma SetInt_int_value:
  assumes "exported field" "Kind (Type field) \<in> set signed_kinds"
  shows "SetInt field x = Inr (int_value (Type field) (sint x))"
  using assms
  by (cases "Type field")
     (simp_all add: SetInt_def exported_def signed_kinds_def ucast_eq_word_of_int_sint)

lemma SetUint_int_value:
  assumes "exported field" "Kind (Type field) \<in> set unsigned_kinds"
  shows "SetUint field x = Inr (int_value (Type field) (sint x))"
  using assms
  by (cases "Type field")
     (simp_all add: SetUint_def exported_def unsigned_kinds_def ucast_eq_word_of_int_sint)

lemma number_int_value:
  assumes "Kind t \<in> set (signed_kinds @ unsigned_kinds)"
  shows "number (int_value t k) = wrapped t k"
  using assms
  by (cases t)
     (simp_all add: wrapped_def signed_kinds_def unsigned_kinds_def sint_sbintrunc'
        signed_take_bit_eq_take_bit_shift take_bit_eq_mod uint_word_of_int)

lemma signed_kind_cases:
  "Kind t \<in> set signed_kinds \<longleftrightarrow> t = TInt \<or> t = TInt8 \<or> t = TInt16 \<or> t = TInt32 \<or> t = TInt64"
  by (cases t) (auto simp: signed_kinds_def)

lemma unsigned_kind_cases:
  "Kind t \<in> set unsigned_kinds \<longleftrightarrow>
     t = TUint \<or> t = TUint8 \<or> t = TUint16 \<or> t = TUint32 \<or> t = TUint64"
  by (cases t) (auto simp: unsigned_kinds_def)

lemma setFieldValue_float64_signed:
  assumes "Kind (Type field) \<in> set signed_kinds"
  shows "setFieldValue pf field cur (VFloat64 x) = SetInt field (int64_of_float64 pf x)"
  using assms unfolding signed_kind_cases
  by (auto simp: setFieldValue_def AssignableTo_def)

lemma setFieldValue_int64_signed:
  assumes "exported field" "Kind (Type field) \<in> set signed_kinds"
  shows "setFieldValue pf field cur (VInt64 v) = Inr (int_value (Type field) (sint v))"
  using assms SetInt_int_value [OF assms, of v] unfolding signed_kind_cases
  by (auto simp: setFieldValue_def AssignableTo_def Set_def exported_def)

lemma setFieldValue_int_signed:
  assumes "exported field" "Kind (Type field) \<in> set signed_kinds"
  shows "setFieldValue pf field cur (VInt v) = Inr (int_value (Type field) (sint v))"
  using assms SetInt_int_value [OF assms, of v] unfolding signed_kind_cases
  by (auto simp: setFieldValue_def AssignableTo_def Set_def exported_def)

lemma setFieldValue_int32_signed:
  assumes "exported field" "Kind (Type field) \<in> set signed_kinds"
  shows "setFieldValue pf field cur (VInt32 u) = Inr (int_value (Type field) (sint u))"
  using assms SetInt_int_value [OF assms, of "scast u"] unfolding signed_kind_cases
  by (auto simp: setFieldValue_def AssignableTo_def Set_def exported_def
        scast_eq_word_of_int_sint [symmetric] sint_up_scast is_up)

lemma setFieldValue_int64_unsigned:
  assumes "exported field" "Kind (Type field) \<in> set unsigned_kinds"
  shows "setFieldValue pf field cur (VInt64 v) = Inr (int_value (Type field) (sint v))"
  using assms SetUint_int_value [OF assms, of v] unfolding unsigned_kind_cases
  by (auto simp: setFieldValue_def AssignableTo_def)

lemma setFieldValue_int_unsigned:
  assumes "exported field" "Kind (Type field) \<in> set unsigned_kinds"
  shows "setFieldValue pf field cur (VInt v) = Inr (int_value (Type field) (sint v))"
  using assms SetUint_int_value [OF assms, of v] unfolding unsigned_kind_cases
  by (auto simp: setFieldValue_def AssignableTo_def)

lemma setFieldValue_int32_unsigned:
  assumes "exported field" "Kind (Type field) \<in> set unsigned_kinds"
  shows "setFieldValue pf field cur (VInt32 u) = Inr (int_value (Type field) (sint u))"
  using assms SetUint_int_value [OF assms, of "scast u"] unfolding unsigned_kind_cases
  by (auto simp: setFieldValue_def AssignableTo_def sint_up_scast is_up)

lemma integer_part_in_int64:
  assumes "- (2 ^ 63) \<le> x" and "x < 2 ^ 63"
  shows "- (2 ^ 63) \<le> integer_part x \<and> integer_part x < 2 ^ 63"
proof (cases "0 \<le> x")
  case True
  then have "0 \<le> \<lfloor>x\<rfloor>" by simp
  moreover have "\<lfloor>x\<rfloor> < 2 ^ 63" using assms(2) by (simp add: floor_less_iff)
  ultimately show ?thesis using True by (simp add: integer_part_def)
next
  case False
  then have "\<lceil>x\<rceil> \<le> 0" by (simp add: ceiling_le_iff)
  moreover have "- (2 ^ 63) \<le> \<lceil>x\<rceil>" using assms(1) by (simp add: le_ceiling_iff)
  ultimately show ?thesis using False by (simp add: integer_part_def)
qed

lemma number_int_value_in_range:
  assumes "Kind t \<in> set signed_kinds"
      and "- (2 ^ (width t - 1)) \<le> k" and "k < 2 ^ (width t - 1)"
  shows "number (int_value t k) = k"
  using assms unfolding signed_kind_cases
  by (auto simp: sint_sbintrunc' signed_take_bit_int_eq_self)

lemma setFieldValue_float32_signed:
  assumes "Kind (Type field) \<in> set signed_kinds"
  shows "setFieldValue pf field cur (VFloat32 y) =
           Inl (Error (''cannot convert float32 to '' @ type_string (Type field)))"
  using assms unfolding signed_kind_cases
  by (auto simp: setFieldValue_def AssignableTo_def cannot_convert_def)

text \<open>
  C8 as stated fails, in three ways. A \<open>float32\<close> is a floating-point source, and
  \<open>setFieldValue\<close> refuses it: the type switch for the integer fields has the case \<open>float64\<close>
  only, so the \<open>float32\<close> nearest \<open>7.9\<close> into a field of type \<open>int64\<close> gives the error
  \<open>cannot convert float32 to int64\<close>. On an unexported field of type \<open>int64\<close> the \<open>float64\<close>
  nearest \<open>7.9\<close> makes \<open>SetInt\<close> panic. And a \<open>float64\<close> whose integer part does not fit an
  \<open>int64\<close> is not truncated: where the conversion out of range gives the least \<open>int64\<close>
  (as on amd64), the \<open>float64\<close> \<open>2 ^ 63\<close> leaves \<open>- 2 ^ 63\<close> in the field.
\<close>

theorem float32_into_int64_field_is_refused:
  "setFieldValue indefinite \<lparr>Name = ''Count'', PkgPath = [], Type = TInt64, Tag = []\<rparr> (VInt64 0)
     (VFloat32 (float32 (79 / 10))) = Inl (Error ''cannot convert float32 to int64'') \<and>
   setFieldValue indefinite \<lparr>Name = ''count'', PkgPath = ''main'', Type = TInt64, Tag = []\<rparr> (VInt64 0)
     (VFloat64 (float64 (79 / 10))) = Inl (PanicUnexportedField ''reflect.Value.SetInt'') \<and>
   setFieldValue indefinite \<lparr>Name = ''Count'', PkgPath = [], Type = TInt64, Tag = []\<rparr> (VInt64 0)
     (VFloat64 (Finite (2 ^ 63))) = Inr (VInt64 (- (2 ^ 63)))"
proof -
  have t: "integer_part 9223372036854775808 = 9223372036854775808"
    by (simp add: integer_part_def)
  have a: "setFieldValue indefinite \<lparr>Name = ''Count'', PkgPath = [], Type = TInt64, Tag = []\<rparr> (VInt64 0)
     (VFloat32 (float32 (79 / 10))) = Inl (Error ''cannot convert float32 to int64'')"
    by (simp add: setFieldValue_def AssignableTo_def cannot_convert_def)
  have b: "setFieldValue indefinite \<lparr>Name = ''count'', PkgPath = ''main'', Type = TInt64, Tag = []\<rparr> (VInt64 0)
     (VFloat64 (float64 (79 / 10))) = Inl (PanicUnexportedField ''reflect.Value.SetInt'')"
    by (simp add: setFieldValue_def AssignableTo_def SetInt_def)
  have c: "setFieldValue indefinite \<lparr>Name = ''Count'', PkgPath = [], Type = TInt64, Tag = []\<rparr> (VInt64 0)
     (VFloat64 (Finite (2 ^ 63))) = Inr (VInt64 (- (2 ^ 63)))"
    by (simp add: setFieldValue_def AssignableTo_def SetInt_def int64_of_float64_def t
          indefinite_def)
  show ?thesis by (intro conjI a b c)
qed

text \<open>
  C8, as amended. Coercion of a \<open>float64\<close> into a field of a signed integer type truncates
  toward zero: for every exported field of such a type and every finite \<open>float64\<close> \<open>x\<close> with
  \<open>- 2 ^ 63 \<le> x < 2 ^ 63\<close>, \<open>setFieldValue\<close> succeeds and the field holds \<open>x\<close> without its
  fraction (the floor of \<open>x\<close> when \<open>x\<close> is not negative, the ceiling when it is), converted
  to the type of the field, which is that very number when it fits the type. A \<open>float32\<close>
  source is refused with the error \<open>cannot convert float32 to <type>\<close>. For the \<open>float64\<close>
  written \<open>7.9\<close> and a field of type \<open>int64\<close> the field holds \<open>7\<close>, and for \<open>-7.9\<close> it holds
  \<open>-7\<close>: see the witness.
\<close>

theorem float64_into_signed_field_truncates:
  assumes "exported field"
      and "Kind (Type field) \<in> set signed_kinds"
      and "- (2 ^ 63) \<le> x" and "x < 2 ^ 63"
  shows "setFieldValue pf field cur (VFloat64 (Finite x)) =
           Inr (int_value (Type field) (if 0 \<le> x then \<lfloor>x\<rfloor> else \<lceil>x\<rceil>))
       \<and> setFieldValue pf field cur (VFloat32 y) =
           Inl (Error (''cannot convert float32 to '' @ type_string (Type field)))
       \<and> (- (2 ^ (width (Type field) - 1)) \<le> k \<and> k < 2 ^ (width (Type field) - 1) \<longrightarrow>
            number (int_value (Type field) k) = k)"
proof -
  have r: "- (2 ^ 63) \<le> integer_part x" "integer_part x < 2 ^ 63"
    using integer_part_in_int64 [OF assms(3,4)] by simp_all
  have "int64_of_float64 pf (Finite x) = word_of_int (integer_part x)"
    using r by (simp add: int64_of_float64_def)
  moreover have "sint (word_of_int (integer_part x) :: 64 word) = integer_part x"
    using r by (simp add: sint_sbintrunc' signed_take_bit_int_eq_self)
  ultimately have "setFieldValue pf field cur (VFloat64 (Finite x)) =
      Inr (int_value (Type field) (integer_part x))"
    using SetInt_int_value [OF assms(1,2), of "word_of_int (integer_part x)"]
    by (simp add: setFieldValue_float64_signed [OF assms(2)])
  then have a: "setFieldValue pf field cur (VFloat64 (Finite x)) =
      Inr (int_value (Type field) (if 0 \<le> x then \<lfloor>x\<rfloor> else \<lceil>x\<rceil>))"
    by (simp only: integer_part_def)
  have b: "setFieldValue pf field cur (VFloat32 y) =
      Inl (Error (''cannot convert float32 to '' @ type_string (Type field)))"
    by (rule setFieldValue_float32_signed [OF assms(2)])
  have c: "- (2 ^ (width (Type field) - 1)) \<le> k \<and> k < 2 ^ (width (Type field) - 1) \<longrightarrow>
      number (int_value (Type field) k) = k"
    using number_int_value_in_range [OF assms(2), of k] by blast
  show ?thesis by (intro conjI a b c)
qed

theorem float64_into_signed_field_truncates_witness:
  "exported \<lparr>Name = ''Count'', PkgPath = [], Type = TInt64, Tag = []\<rparr> \<and>
   Kind (Type \<lparr>Name = ''Count'', PkgPath = [], Type = TInt64, Tag = []\<rparr>) \<in> set signed_kinds \<and>
   - (2 ^ 63) \<le> (4447304632028365 / 562949953421312 :: rat) \<and>
   (4447304632028365 / 562949953421312 :: rat) < 2 ^ 63 \<and>
   - (2 ^ 63) \<le> (- (4447304632028365 / 562949953421312) :: rat) \<and>
   (- (4447304632028365 / 562949953421312) :: rat) < 2 ^ 63 \<and>
   float64 (79 / 10) = Finite (4447304632028365 / 562949953421312) \<and>
   float64 (- (79 / 10)) = Finite (- (4447304632028365 / 562949953421312)) \<and>
   setFieldValue indefinite \<lparr>Name = ''Count'', PkgPath = [], Type = TInt64, Tag = []\<rparr> (VInt64 0)
       (VFloat64 (float64 (79 / 10))) = Inr (VInt64 7) \<and>
   setFieldValue indefinite \<lparr>Name = ''Count'', PkgPath = [], Type = TInt64, Tag = []\<rparr> (VInt64 0)
       (VFloat64 (float64 (- (79 / 10)))) = Inr (VInt64 (- 7)) \<and>
   setFieldValue indefinite \<lparr>Name = ''Count'', PkgPath = [], Type = TInt64, Tag = []\<rparr> (VInt64 0)
       (VFloat32 (float32 (79 / 10))) = Inl (Error ''cannot convert float32 to int64'') \<and>
   number (VInt64 7) = 7 \<and> number (VInt64 (- 7)) = - 7"
proof -
  let ?f = "\<lparr>Name = ''Count'', PkgPath = [], Type = TInt64, Tag = []\<rparr>"
  let ?x = "4447304632028365 / 562949953421312 :: rat"
  have h1: "exported ?f" by (simp add: exported_def)
  have h2: "Kind (Type ?f) \<in> set signed_kinds" by (simp add: signed_kinds_def)
  have h3: "- (2 ^ 63) \<le> ?x" and h4: "?x < 2 ^ 63" by simp_all
  have h5: "- (2 ^ 63) \<le> - ?x" and h6: "- ?x < 2 ^ 63" by simp_all
  have t: "(if 0 \<le> ?x then \<lfloor>?x\<rfloor> else \<lceil>?x\<rceil>) = 7" by code_simp
  have u: "(if 0 \<le> - ?x then \<lfloor>- ?x\<rfloor> else \<lceil>- ?x\<rceil>) = - 7" by code_simp
  have f: "float64 (79 / 10) = Finite ?x" by code_simp
  have g: "float64 (- (79 / 10)) = Finite (- ?x)" by code_simp
  note p = float64_into_signed_field_truncates
      [OF h1 h2 h3 h4, where pf = indefinite and cur = "VInt64 0" and y = "float32 (79 / 10)"
         and k = 7]
  note n = float64_into_signed_field_truncates
      [OF h1 h2 h5 h6, where pf = indefinite and cur = "VInt64 0" and y = "float32 (79 / 10)"
         and k = "- 7"]
  have r1: "setFieldValue indefinite ?f (VInt64 0) (VFloat64 (float64 (79 / 10))) = Inr (VInt64 7)"
    using p unfolding t f by simp
  have r2: "setFieldValue indefinite ?f (VInt64 0) (VFloat64 (float64 (- (79 / 10)))) =
      Inr (VInt64 (- 7))"
    using n unfolding u g by simp
  have r3: "setFieldValue indefinite ?f (VInt64 0) (VFloat32 (float32 (79 / 10))) =
      Inl (Error ''cannot convert float32 to int64'')"
    using p by simp
  have r4: "number (VInt64 7) = 7" using p by simp
  have r5: "number (VInt64 (- 7)) = - 7" using n by simp
  show ?thesis by (intro conjI h1 h2 h3 h4 h5 h6 f g r1 r2 r3 r4 r5)
qed

lemma setFieldValue_float64_unsigned:
  assumes "Kind (Type field) \<in> set unsigned_kinds"
  shows "setFieldValue pf field cur (VFloat64 x) = SetUint field (uint64_of_float64 pf x)"
  using assms unfolding unsigned_kind_cases
  by (auto simp: setFieldValue_def AssignableTo_def)

text \<open>
  C10, as amended. On an exported field of an integer type, signed or unsigned,
  \<open>setFieldValue\<close> succeeds for every \<open>int64\<close>, \<open>int\<close>, \<open>int32\<close> and \<open>float64\<close> source, whether
  or not the number fits the type: the field then holds the number converted to its type,
  which is the number wrapped to the range of the type (for a \<open>float64\<close>, what the
  conversion to \<open>int64\<close> or \<open>uint64\<close> gave, wrapped). Nothing panics and no error is
  returned.
\<close>

theorem integer_source_is_wrapped_not_refused:
  assumes "exported field"
      and "Kind (Type field) \<in> set (signed_kinds @ unsigned_kinds)"
  shows "setFieldValue pf field cur (VInt64 v) = Inr (int_value (Type field) (sint v))
       \<and> setFieldValue pf field cur (VInt v) = Inr (int_value (Type field) (sint v))
       \<and> setFieldValue pf field cur (VInt32 u) = Inr (int_value (Type field) (sint u))
       \<and> setFieldValue pf field cur (VFloat64 x) =
           Inr (int_value (Type field)
                  (sint (if Kind (Type field) \<in> set signed_kinds then int64_of_float64 pf x
                         else uint64_of_float64 pf x)))
       \<and> number (int_value (Type field) k) = wrapped (Type field) k"
proof (cases "Kind (Type field) \<in> set signed_kinds")
  case True
  show ?thesis
    using setFieldValue_int64_signed [OF assms(1) True] setFieldValue_int_signed [OF assms(1) True]
      setFieldValue_int32_signed [OF assms(1) True] number_int_value [OF assms(2)]
      setFieldValue_float64_signed [OF True] SetInt_int_value [OF assms(1) True] True
    by simp
next
  case False
  with assms(2) have u: "Kind (Type field) \<in> set unsigned_kinds" by simp
  show ?thesis
    using setFieldValue_int64_unsigned [OF assms(1) u] setFieldValue_int_unsigned [OF assms(1) u]
      setFieldValue_int32_unsigned [OF assms(1) u] number_int_value [OF assms(2)]
      setFieldValue_float64_unsigned [OF u] SetUint_int_value [OF assms(1) u] False
    by simp
qed

theorem integer_source_is_wrapped_not_refused_witness:
  "exported \<lparr>Name = ''Level'', PkgPath = [], Type = TInt8, Tag = []\<rparr> \<and>
   Kind (Type \<lparr>Name = ''Level'', PkgPath = [], Type = TInt8, Tag = []\<rparr>)
     \<in> set (signed_kinds @ unsigned_kinds) \<and>
   setFieldValue indefinite \<lparr>Name = ''Level'', PkgPath = [], Type = TInt8, Tag = []\<rparr> (VInt8 0)
       (VInt64 300) = Inr (VInt8 44) \<and>
   number (VInt8 44) = wrapped TInt8 300"
proof -
  let ?f = "\<lparr>Name = ''Level'', PkgPath = [], Type = TInt8, Tag = []\<rparr>"
  have h1: "exported ?f" by (simp add: exported_def)
  have h2: "Kind (Type ?f) \<in> set (signed_kinds @ unsigned_kinds)" by (simp add: signed_kinds_def)
  show ?thesis
    using h1 h2
      integer_source_is_wrapped_not_refused
        [OF h1 h2, where pf = indefinite and cur = "VInt8 0" and v = 300 and u = 0 and k = 300
           and x = "Finite 0"]
    by simp
qed

text \<open>
  C10 as stated fails: an \<open>int64\<close> source \<open>300\<close> does not fit a field of type \<open>int8\<close>, and
  \<open>setFieldValue\<close> assigns (the field holds \<open>44\<close>) and returns no error.
\<close>

theorem int64_300_into_int8_is_assigned:
  "setFieldValue indefinite \<lparr>Name = ''Level'', PkgPath = [], Type = TInt8, Tag = []\<rparr> (VInt8 0)
     (VInt64 300) = Inr (VInt8 44)"
  by (simp add: setFieldValue_def AssignableTo_def SetInt_def)

lemma float_field_kind: "Kind t \<in> set [KFloat32, KFloat64] \<longleftrightarrow> t = TFloat32 \<or> t = TFloat64"
  by (cases t) auto

text \<open>
  C2 (the code departs from the claim). The claim: an \<open>int32\<close> source \<open>7\<close> into a \<open>float64\<close>
  field succeeds and yields \<open>7.0\<close>. The code: for a field of a floating-point type the
  type switch has the cases \<open>float64\<close>, \<open>int64\<close> and \<open>int\<close> only (the switches for the
  integer fields have \<open>int32\<close> too), so every \<open>int32\<close> source is refused with the error
  \<open>cannot convert int32 to <type>\<close>, and the field is not assigned.
\<close>

theorem int32_into_float_field_is_refused:
  assumes "Kind (Type field) \<in> set [KFloat32, KFloat64]"
  shows "setFieldValue pf field cur (VInt32 v) =
           Inl (Error (''cannot convert int32 to '' @ type_string (Type field)))"
  using assms unfolding float_field_kind
  by (auto simp: setFieldValue_def AssignableTo_def cannot_convert_def)

theorem int32_into_float_field_is_refused_witness:
  "Kind (Type \<lparr>Name = ''Price'', PkgPath = [], Type = TFloat64, Tag = []\<rparr>) \<in> set [KFloat32, KFloat64] \<and>
   setFieldValue indefinite \<lparr>Name = ''Price'', PkgPath = [], Type = TFloat64, Tag = []\<rparr>
       (VFloat64 (Finite 0)) (VInt32 7) =
     Inl (Error ''cannot convert int32 to float64'')"
proof -
  let ?f = "\<lparr>Name = ''Price'', PkgPath = [], Type = TFloat64, Tag = []\<rparr>"
  have h: "Kind (Type ?f) \<in> set [KFloat32, KFloat64]" by simp
  show ?thesis
    using h int32_into_float_field_is_refused [OF h, of indefinite "VFloat64 (Finite 0)" 7]
    by simp
qed

section \<open>Theorems on the query builder\<close>

lemma setFieldValue_nil: "setFieldValue pf field cur VNil = Inr cur"
  by (simp add: setFieldValue_def)

lemma FieldByName_Some:
  assumes "FieldByName s n = Some (j, f, v)"
  shows "j < length (fvals s) \<and> fvals s ! j = (f, v)"
proof -
  from assms have "(j, f, v) \<in> set (enumerate 0 (fvals s))"
    unfolding FieldByName_def by (auto simp: find_Some_iff in_set_conv_nth)
  then show ?thesis by (simp add: in_set_enumerate_eq)
qed

lemma First_assign_nil:
  "list_all (\<lambda>(c, v). v = VNil) ps \<Longrightarrow> First_assign pf ht dest ps = (dest, None)"
proof (induction ps)
  case Nil
  then show ?case by simp
next
  case (Cons a ps)
  obtain col v where a: "a = (col, v)" by (cases a)
  from Cons.prems a have v: "v = VNil" and rest: "list_all (\<lambda>(c, v). v = VNil) ps" by auto
  show ?case
  proof (cases "ht col")
    case None
    then show ?thesis using Cons.IH [OF rest] a by simp
  next
    case (Some n)
    show ?thesis
    proof (cases "FieldByName dest n")
      case None
      then show ?thesis using Cons.IH [OF rest] a Some by simp
    next
      case (Some t)
      obtain j f cur where t: "t = (j, f, cur)" by (cases t)
      from FieldByName_Some [of dest n j f cur] Some t
      have "(fvals dest)[j := (f, cur)] = fvals dest" by (simp add: list_update_same_conv)
      then show ?thesis using Cons.IH [OF rest] a \<open>ht col = Some n\<close> Some t v
        by (simp add: setFieldValue_nil)
    qed
  qed
qed

lemma zip_replicate_nil: "list_all (\<lambda>(c, v). v = VNil) (zip cols (replicate n VNil))"
  by (auto simp: list_all_iff set_zip)

text \<open>
  C5. When the query of \<open>First\<close> answers with no rows, whatever the columns, \<open>First\<close>
  returns nil and the destination is the struct it was, field by field.
\<close>

theorem First_without_rows_leaves_destination:
  assumes "Query db (First_query q queryCol) (Query_args q) = Inr (columnNames, [])"
  shows "First pf db q dest queryCol =
           ([QueryCall (First_query q queryCol) (Query_args q)], dest, None)"
  using assms First_assign_nil [OF zip_replicate_nil]
  by (simp add: First_def Let_def)

theorem First_without_rows_leaves_destination_witness:
  "Query (quiet_db\<lparr>Query := (\<lambda>q args. Inr ([''id'', ''name_user'', ''email_user''], []))\<rparr>)
      (First_query (Where (From indefinite User) ''id = $1'' [VInt 14]) [])
      (Query_args (Where (From indefinite User) ''id = $1'' [VInt 14]))
     = Inr ([''id'', ''name_user'', ''email_user''], []) \<and>
   First indefinite (quiet_db\<lparr>Query := (\<lambda>q args. Inr ([''id'', ''name_user'', ''email_user''], []))\<rparr>)
       (Where (From indefinite User) ''id = $1'' [VInt 14]) (user 3 ''aji'' ''aji@handsome.com'') [] =
     ([QueryCall ''SELECT * FROM users WHERE id = $1 LIMIT 1'' [VInt 14]],
      user 3 ''aji'' ''aji@handsome.com'', None)"
proof -
  let ?q = "Where (From indefinite User) ''id = $1'' [VInt 14]"
  let ?db = "quiet_db\<lparr>Query := (\<lambda>q args. Inr ([''id'', ''name_user'', ''email_user''], []))\<rparr>"
  have h: "Query ?db (First_query ?q []) (Query_args ?q) = Inr ([''id'', ''name_user'', ''email_user''], [])"
    by simp
  have q: "First_query ?q [] = ''SELECT * FROM users WHERE id = $1 LIMIT 1''"
    by (simp add: First_query_def Where_def From_def User_def selectedCols_def ToLower_def isASCII_def
          lower_char_def show_int_def show_nat.simps digit_char_def)
  have a: "Query_args ?q = [VInt 14]"
    by (simp add: Query_args_def Where_def)
  show ?thesis
    using h First_without_rows_leaves_destination
      [OF h, of indefinite "user 3 ''aji'' ''aji@handsome.com''"]
    unfolding q a by simp
qed

text \<open>
  C9. \<open>Paginate\<close> does the same whatever \<open>Where\<close> and \<open>Limit\<close> have put into the query: it
  reads the table only. Its first call is \<open>SELECT COUNT(*) FROM <table>\<close>, without
  arguments; when that succeeds, its second and last call is
  \<open>SELECT <cols> FROM <table> ORDER BY id LIMIT $1 OFFSET $2\<close> with two arguments, the page
  size and the offset.
\<close>

theorem Paginate_ignores_where_and_limit:
  "Paginate pf db (Limit (Where q condition args) n) tipe dest page pageSize total0 totalPages0 queryCol
     = Paginate pf db q tipe dest page pageSize total0 totalPages0 queryCol
   \<and> fst (Paginate pf db q tipe dest page pageSize total0 totalPages0 queryCol) =
       (case QueryRow db (''SELECT COUNT(*) FROM '' @ q_table q) of
          Inl err \<Rightarrow> [QueryRowCall (''SELECT COUNT(*) FROM '' @ q_table q)]
        | Inr total1 \<Rightarrow>
            [QueryRowCall (''SELECT COUNT(*) FROM '' @ q_table q),
             QueryCall (''SELECT '' @ selectedCols queryCol @ '' FROM '' @ q_table q
                          @ '' ORDER BY id LIMIT $1 OFFSET $2'')
               [VInt (if pageSize \<le>s 0 then 1 else pageSize),
                VInt (((if page <s 1 then 1 else page) - 1)
                        * (if pageSize \<le>s 0 then 1 else pageSize))]])"
  by (simp add: Paginate_def Limit_def Where_def Paginate_count_query_def Paginate_query_def
        Let_def split: sum.splits prod.splits)











section \<open>Theorems on floating point and on the pages of Paginate\<close>

lemma pow2_powi: "pow2 k = 2 powi k"
  by (simp add: pow2_def power_int_def power_one_over inverse_eq_divide)

lemma pow2_pos [simp]: "0 < pow2 k"
  by (simp add: pow2_powi)

lemma pow2_nonzero [simp]: "pow2 k \<noteq> 0"
  by (simp add: pow2_powi)

lemma pow2_add: "pow2 (a + b) = pow2 a * pow2 b"
  by (simp add: pow2_powi power_int_add)

lemma pow2_diff: "pow2 (a - b) = pow2 a / pow2 b"
  by (simp add: pow2_powi power_int_diff)

lemma pow2_mono: "a \<le> b \<Longrightarrow> pow2 a \<le> pow2 b"
  by (simp add: pow2_powi power_int_increasing)

lemma pow2_strict_mono: "a < b \<Longrightarrow> pow2 a < pow2 b"
  by (simp add: pow2_powi power_int_strict_increasing)

lemma pow2_nat: "pow2 (int n) = 2 ^ n"
  by (simp add: pow2_def)

lemma pow2_numeral: "pow2 (numeral n) = 2 ^ numeral n"
  by (simp add: pow2_def)

lemma of_int_bitlen_bounds:
  assumes "0 < n"
  shows "pow2 (bitlen n - 1) \<le> of_int n" and "(of_int n :: rat) < pow2 (bitlen n)"
proof -
  from bitlen_bounds [OF assms]
  have lo: "2 ^ nat (bitlen n - 1) \<le> n" and hi: "n < 2 ^ nat (bitlen n)" by simp_all
  have b: "1 \<le> bitlen n" using assms by (simp add: bitlen_alt_def)
  have "(of_int (2 ^ nat (bitlen n - 1)) :: rat) \<le> of_int n" using lo by (simp only: of_int_le_iff)
  then show "pow2 (bitlen n - 1) \<le> of_int n" using b by (simp add: pow2_def)
  have "(of_int n :: rat) < of_int (2 ^ nat (bitlen n))" using hi by (simp only: of_int_less_iff)
  then show "(of_int n :: rat) < pow2 (bitlen n)" using b by (simp add: pow2_def)
qed

lemma ilog2_bounds:
  assumes "0 < x"
  shows "pow2 (ilog2 x) \<le> x \<and> x < pow2 (ilog2 x + 1)"
proof -
  obtain n d where q: "quotient_of x = (n, d)" by (cases "quotient_of x")
  then have d: "0 < d" by (rule quotient_of_denom_pos)
  from q have x: "x = of_int n / of_int d" by (rule quotient_of_div)
  with assms d have n: "0 < n" by (simp add: zero_less_divide_iff)
  define k where "k = bitlen n - bitlen d"
  note nb = of_int_bitlen_bounds [OF n] and db = of_int_bitlen_bounds [OF d]
  have dpos: "(0::rat) < of_int d" using d by simp
  have "x < pow2 (bitlen n) / pow2 (bitlen d - 1)"
    unfolding x using nb(2) db(1) dpos
    by (intro frac_less) (simp_all add: n less_imp_le)
  also have "\<dots> = pow2 (k + 1)" by (simp add: k_def pow2_diff [symmetric] algebra_simps)
  finally have hi: "x < pow2 (k + 1)" .
  have "pow2 (k - 1) = pow2 (bitlen n - 1) / pow2 (bitlen d)"
    by (simp add: k_def pow2_diff [symmetric] algebra_simps)
  also have "\<dots> < x"
    unfolding x using nb(1) db(2) dpos
    by (intro frac_less2) (simp_all add: n)
  finally have lo: "pow2 (k - 1) < x" .
  have i: "ilog2 x = (if pow2 k \<le> x then k else k - 1)"
    by (simp add: ilog2_def q k_def Let_def)
  show ?thesis
  proof (cases "pow2 k \<le> x")
    case True
    with i hi show ?thesis by simp
  next
    case False
    with i lo show ?thesis by (simp add: less_imp_le)
  qed
qed

lemma ilog2_unique:
  assumes "pow2 e \<le> x" "x < pow2 (e + 1)"
  shows "ilog2 x = e"
proof -
  have pos: "0 < x" using assms(1) pow2_pos [of e] by (rule less_le_trans [rotated])
  from ilog2_bounds [OF pos] have a: "pow2 (ilog2 x) \<le> x" and b: "x < pow2 (ilog2 x + 1)" by simp_all
  have "\<not> e + 1 \<le> ilog2 x"
  proof
    assume "e + 1 \<le> ilog2 x"
    then have "pow2 (e + 1) \<le> pow2 (ilog2 x)" by (rule pow2_mono)
    with a assms(2) show False by simp
  qed
  moreover have "\<not> ilog2 x + 1 \<le> e"
  proof
    assume "ilog2 x + 1 \<le> e"
    then have "pow2 (ilog2 x + 1) \<le> pow2 e" by (rule pow2_mono)
    with b assms(1) show False by simp
  qed
  ultimately show ?thesis by simp
qed

lemma round_half_even_of_int [simp]: "round_half_even (of_int z) = z"
  by (simp add: round_half_even_def)

lemma round_half_even_error: "\<bar>of_int (round_half_even x) - x\<bar> \<le> 1 / 2"
proof -
  have "of_int \<lfloor>x\<rfloor> \<le> x" "x < of_int \<lfloor>x\<rfloor> + 1" by linarith+
  then show ?thesis by (auto simp: round_half_even_def Let_def)
qed

lemma round_half_even_ge: "of_int z \<le> x \<Longrightarrow> z \<le> round_half_even x"
proof -
  assume "of_int z \<le> x"
  then have "z \<le> \<lfloor>x\<rfloor>" by (simp add: le_floor_iff)
  then show ?thesis by (simp add: round_half_even_def Let_def)
qed

lemma round_half_even_le: "x \<le> of_int z \<Longrightarrow> round_half_even x \<le> z"
proof -
  assume a: "x \<le> of_int z"
  show ?thesis
  proof (cases "x = of_int z")
    case True
    then show ?thesis by simp
  next
    case False
    with a have "x < of_int z" by simp
    then have "\<lfloor>x\<rfloor> < z" by (simp add: floor_less_iff)
    then show ?thesis by (auto simp: round_half_even_def Let_def)
  qed
qed

lemma pow2_half: "pow2 (e - 52) / 2 = pow2 (e - 53)"
proof -
  have "pow2 (e - 52) = pow2 (e - 53) * pow2 1"
    using pow2_add [of "e - 53" 1] by simp
  then show ?thesis by (simp add: pow2_def)
qed

lemma rounded_bounds:
  assumes "pow2 e \<le> x" "x < pow2 (e + 1)"
  shows "pow2 e \<le> of_int (round_half_even (x / pow2 (e - 52))) * pow2 (e - 52)"
    and "of_int (round_half_even (x / pow2 (e - 52))) * pow2 (e - 52) \<le> pow2 (e + 1)"
    and "\<bar>of_int (round_half_even (x / pow2 (e - 52))) * pow2 (e - 52) - x\<bar> \<le> pow2 (e - 53)"
proof -
  let ?u = "pow2 (e - 52)"
  let ?m = "round_half_even (x / ?u)"
  have u: "0 < ?u" by simp
  have "pow2 e = pow2 (52 + (e - 52))" by simp
  also have "\<dots> = pow2 52 * ?u" by (rule pow2_add)
  finally have e52: "pow2 e = of_int (2 ^ 52) * ?u" by (simp add: pow2_numeral)
  have "pow2 (e + 1) = pow2 (53 + (e - 52))" by (simp add: algebra_simps)
  also have "\<dots> = pow2 53 * ?u" by (rule pow2_add)
  finally have e53: "pow2 (e + 1) = of_int (2 ^ 53) * ?u" by (simp add: pow2_numeral)
  have "of_int (2 ^ 52) \<le> x / ?u"
    using assms(1) u unfolding e52 by (simp add: pos_le_divide_eq)
  then have "2 ^ 52 \<le> ?m" by (rule round_half_even_ge)
  then have "(of_int (2 ^ 52) :: rat) \<le> of_int ?m" by (simp only: of_int_le_iff)
  then have "of_int (2 ^ 52) * ?u \<le> of_int ?m * ?u" using u by (simp only: mult_le_cancel_right_pos)
  then show "pow2 e \<le> of_int ?m * ?u" by (simp only: e52)
  have "x / ?u \<le> of_int (2 ^ 53)"
    using assms(2) u unfolding e53 by (simp add: pos_divide_le_eq less_imp_le)
  then have "?m \<le> 2 ^ 53" by (rule round_half_even_le)
  then have "(of_int ?m :: rat) \<le> of_int (2 ^ 53)" by (simp only: of_int_le_iff)
  then have "of_int ?m * ?u \<le> of_int (2 ^ 53) * ?u" using u by (simp only: mult_le_cancel_right_pos)
  then show "of_int ?m * ?u \<le> pow2 (e + 1)" by (simp only: e53)
  have "\<bar>of_int ?m - x / ?u\<bar> \<le> 1 / 2" by (rule round_half_even_error)
  then have "\<bar>of_int ?m - x / ?u\<bar> * ?u \<le> 1 / 2 * ?u"
    using u by (simp only: mult_le_cancel_right_pos)
  moreover have "\<bar>of_int ?m - x / ?u\<bar> * ?u = \<bar>of_int ?m * ?u - x\<bar>"
  proof -
    have "\<bar>?u\<bar> = ?u" using u by (simp only: abs_of_pos)
    then have "\<bar>of_int ?m - x / ?u\<bar> * ?u = \<bar>(of_int ?m - x / ?u) * ?u\<bar>"
      by (simp only: abs_mult)
    also have "(of_int ?m - x / ?u) * ?u = of_int ?m * ?u - x"
      using u by (simp add: left_diff_distrib)
    finally show ?thesis .
  qed
  ultimately show "\<bar>of_int ?m * ?u - x\<bar> \<le> pow2 (e - 53)"
    using pow2_half [of e] by simp
qed

lemma float64_normal:
  assumes "pow2 e \<le> x" "x < pow2 (e + 1)" "- 1022 \<le> e" "e \<le> 1022"
  shows "float64 x = Finite (of_int (round_half_even (x / pow2 (e - 52))) * pow2 (e - 52))"
proof -
  have pos: "0 < x" using pow2_pos [of e] assms(1) by (rule less_le_trans)
  have i: "ilog2 x = e" using assms(1,2) by (rule ilog2_unique)
  have "of_int (round_half_even (x / pow2 (e - 52))) * pow2 (e - 52) \<le> pow2 (e + 1)"
    using assms(1,2) by (rule rounded_bounds(2))
  also have "pow2 (e + 1) < pow2 1024" using assms(4) by (intro pow2_strict_mono) simp
  finally have "\<not> pow2 1024 \<le> of_int (round_half_even (x / pow2 (e - 52))) * pow2 (e - 52)"
    by simp
  moreover have "max e (- 1022) = e" using assms(3) by simp
  ultimately show ?thesis
    using pos by (simp add: float64_def round_to_def i Let_def)
qed

lemma float64_zero: "float64 0 = Finite 0"
  by (simp add: float64_def round_to_def)

lemma ilog2_int_range:
  assumes "1 \<le> n" "n < 2 ^ N"
  shows "0 \<le> ilog2 (of_int n) \<and> ilog2 (of_int n) < int N"
proof -
  have pos: "(0::rat) < of_int n" using assms(1) by simp
  from ilog2_bounds [OF pos]
  have a: "pow2 (ilog2 (of_int n)) \<le> of_int n" and b: "of_int n < pow2 (ilog2 (of_int n) + 1)"
    by simp_all
  have "\<not> ilog2 (of_int n) + 1 \<le> 0"
  proof
    assume "ilog2 (of_int n) + 1 \<le> 0"
    then have "pow2 (ilog2 (of_int n) + 1) \<le> pow2 0" by (rule pow2_mono)
    with b have "(of_int n :: rat) < 1" by (simp add: pow2_def)
    with assms(1) show False by simp
  qed
  moreover have "\<not> int N \<le> ilog2 (of_int n)"
  proof
    assume "int N \<le> ilog2 (of_int n)"
    then have "pow2 (int N) \<le> pow2 (ilog2 (of_int n))" by (rule pow2_mono)
    then have "pow2 (int N) \<le> of_int n" using a by (rule order_trans)
    then have "(2 ^ N :: rat) \<le> of_int n" by (simp add: pow2_nat)
    then have "(of_int (2 ^ N) :: rat) \<le> of_int n" by simp
    then have "2 ^ N \<le> n" by (simp only: of_int_le_iff)
    with assms(2) show False by simp
  qed
  ultimately show ?thesis by simp
qed

lemma float64_of_small_int:
  assumes "0 \<le> n" "n < 2 ^ 53"
  shows "float64 (of_int n) = Finite (of_int n)"
proof (cases "n = 0")
  case True
  then show ?thesis by (simp add: float64_zero)
next
  case False
  with assms(1) have n: "1 \<le> n" by simp
  define e where "e = ilog2 (of_int n)"
  have pos: "(0::rat) < of_int n" using n by simp
  from ilog2_bounds [OF pos]
  have a: "pow2 e \<le> of_int n" and b: "of_int n < pow2 (e + 1)" by (simp_all add: e_def)
  from ilog2_int_range [OF n assms(2)] have e: "0 \<le> e" "e < 53" by (simp_all add: e_def)
  have u: "pow2 (e - 52) = 1 / of_int (2 ^ nat (52 - e))"
    using e by (simp add: pow2_def)
  have "of_int n / pow2 (e - 52) = (of_int (n * 2 ^ nat (52 - e)) :: rat)"
    by (simp add: u)
  then have "round_half_even (of_int n / pow2 (e - 52)) = n * 2 ^ nat (52 - e)"
    by (simp only: round_half_even_of_int)
  then have "of_int (round_half_even (of_int n / pow2 (e - 52))) * pow2 (e - 52) = (of_int n :: rat)"
    by (simp add: u)
  then show ?thesis
    using float64_normal [OF a b] e by simp
qed

lemma float64_of_large_int:
  assumes "2 ^ 53 \<le> n" "n < 2 ^ 63"
  shows "\<exists>p. float64 (of_int n) = Finite (of_int p) \<and> 2 ^ 53 \<le> p \<and> p \<le> 2 ^ 63"
proof -
  define e where "e = ilog2 (of_int n)"
  have n: "1 \<le> n" using assms(1) by simp
  have pos: "(0::rat) < of_int n" using n by simp
  from ilog2_bounds [OF pos]
  have a: "pow2 e \<le> of_int n" and b: "of_int n < pow2 (e + 1)" by (simp_all add: e_def)
  from ilog2_int_range [OF n assms(2)] have e: "0 \<le> e" "e < 63" by (simp_all add: e_def)
  have e53: "53 \<le> e"
  proof (rule ccontr)
    assume "\<not> 53 \<le> e"
    then have "e + 1 \<le> 53" by simp
    then have "pow2 (e + 1) \<le> pow2 53" by (rule pow2_mono)
    with b have "(of_int n :: rat) < of_int (2 ^ 53)" by (simp add: pow2_numeral)
    then have "n < 2 ^ 53" by (simp only: of_int_less_iff)
    with assms(1) show False by simp
  qed
  define m where "m = round_half_even (of_int n / pow2 (e - 52))"
  define p where "p = m * 2 ^ nat (e - 52)"
  have u: "pow2 (e - 52) = of_int (2 ^ nat (e - 52))"
    using e53 by (simp add: pow2_def)
  have y: "of_int m * pow2 (e - 52) = (of_int p :: rat)"
    by (simp add: u p_def)
  have f: "float64 (of_int n) = Finite (of_int p)"
    using float64_normal [OF a b] e by (simp add: m_def [symmetric] y)
  have "pow2 53 \<le> pow2 e" using e53 by (rule pow2_mono)
  also have "pow2 e \<le> of_int p"
    using rounded_bounds(1) [OF a b] by (simp add: m_def [symmetric] y)
  finally have "(of_int (2 ^ 53) :: rat) \<le> of_int p" by (simp add: pow2_numeral)
  then have lo: "2 ^ 53 \<le> p" by (simp only: of_int_le_iff)
  have "of_int p \<le> pow2 (e + 1)"
    using rounded_bounds(2) [OF a b] by (simp add: m_def [symmetric] y)
  also have "pow2 (e + 1) \<le> pow2 63" using e by (intro pow2_mono) simp
  finally have "(of_int p :: rat) \<le> of_int (2 ^ 63)" by (simp add: pow2_numeral)
  then have hi: "p \<le> 2 ^ 63" by (simp only: of_int_le_iff)
  from f lo hi show ?thesis by blast
qed

lemma float64_of_positive_int:
  assumes "1 \<le> n" "n < 2 ^ 63"
  shows "\<exists>p. float64 (of_int n) = Finite (of_int p) \<and> 1 \<le> p \<and> p \<le> 2 ^ 63
             \<and> (n < 2 ^ 53 \<longrightarrow> p = n) \<and> (2 ^ 53 \<le> n \<longrightarrow> 2 ^ 53 \<le> p)"
proof (cases "n < 2 ^ 53")
  case True
  with assms(1) have "float64 (of_int n) = Finite (of_int n)"
    by (intro float64_of_small_int) simp_all
  with True assms(1) show ?thesis by auto
next
  case False
  then have "2 ^ 53 \<le> n" by simp
  from float64_of_large_int [OF this assms(2)] False show ?thesis by auto
qed

lemma float64_quotient_ceiling:
  assumes "0 < t" "t < 2 ^ 53" "1 \<le> p" "p \<le> 2 ^ 63"
  shows "\<exists>y. float64 (of_int t / of_int p) = Finite y \<and> \<lceil>y\<rceil> = \<lceil>of_int t / of_int p :: rat\<rceil>"
proof (cases "p dvd t")
  case True
  then obtain c where c: "t = p * c" by (rule dvdE)
  with assms(1,3) have c0: "0 < c" by (simp add: zero_less_mult_iff)
  have "c \<le> p * c" using assms(3) c0 by simp
  with c assms(2) have c1: "c < 2 ^ 53" by simp
  have x: "(of_int t / of_int p :: rat) = of_int c" using assms(3) c by simp
  have "float64 (of_int c) = Finite (of_int c)"
    using c0 c1 by (intro float64_of_small_int) simp_all
  then show ?thesis unfolding x by blast
next
  case False
  define x :: rat where "x = of_int t / of_int p"
  define k where "k = t div p"
  define r where "r = t mod p"
  have p0: "(0::rat) < of_int p" using assms(3) by simp
  have "0 \<le> r" and rp: "r < p" using assms(3) by (simp_all add: r_def)
  moreover have "r \<noteq> 0" using False by (simp add: r_def dvd_eq_mod_eq_0)
  ultimately have r: "0 < r" "r < p" by simp_all
  have t: "t = k * p + r" by (simp add: k_def r_def)
  have xk: "x = of_int k + of_int r / of_int p"
    using p0 by (simp add: x_def t add_divide_distrib)
  have inv: "1 / of_int p \<le> (of_int r / of_int p :: rat)"
    using r(1) p0 by (simp add: divide_le_cancel)
  have inv': "(of_int r / of_int p :: rat) \<le> 1 - 1 / of_int p"
  proof -
    have "r \<le> p - 1" using r(2) by simp
    then have "(of_int r :: rat) \<le> of_int (p - 1)" by (simp only: of_int_le_iff)
    then have "(of_int r / of_int p :: rat) \<le> of_int (p - 1) / of_int p"
      using p0 by (simp add: divide_le_cancel)
    also have "\<dots> = 1 - 1 / of_int p" using p0 by (simp add: diff_divide_distrib)
    finally show ?thesis .
  qed
  have pos: "0 < x" using assms(1) p0 by (simp add: x_def)
  define e where "e = ilog2 x"
  from ilog2_bounds [OF pos]
  have a: "pow2 e \<le> x" and b: "x < pow2 (e + 1)" by (simp_all add: e_def)
  have xt: "x \<le> of_int t" 
  proof -
    have "of_int t / of_int p \<le> (of_int t / 1 :: rat)"
      using assms(1,3) by (intro divide_left_mono) simp_all
    then show ?thesis by (simp add: x_def)
  qed
  have xlt: "x * of_int p < 2 ^ 53"
  proof -
    have "x * of_int p = of_int t" using p0 by (simp add: x_def)
    also have "(of_int t :: rat) < of_int (2 ^ 53)" using assms(2) by (simp only: of_int_less_iff)
    finally show ?thesis by simp
  qed
  have e_hi: "e \<le> 52"
  proof (rule ccontr)
    assume "\<not> e \<le> 52"
    then have "53 \<le> e" by simp
    then have "pow2 53 \<le> pow2 e" by (rule pow2_mono)
    then have "pow2 53 \<le> x" using a by (rule order_trans)
    then have "(of_int (2 ^ 53) :: rat) \<le> of_int t" using xt by (simp add: pow2_numeral)
    then have "2 ^ 53 \<le> t" by (simp only: of_int_le_iff)
    with assms(2) show False by simp
  qed
  have xge: "pow2 (- 63) \<le> x"
  proof -
    have "(of_int p :: rat) \<le> of_int (2 ^ 63)" using assms(4) by (simp only: of_int_le_iff)
    then have "1 / of_int (2 ^ 63) \<le> (1 / of_int p :: rat)"
      using p0 by (intro divide_left_mono) simp_all
    also have "(1 / of_int p :: rat) \<le> of_int t / of_int p"
      using assms(1) p0 by (simp add: divide_le_cancel)
    finally show ?thesis by (simp add: pow2_def x_def)
  qed
  have e_lo: "- 64 \<le> e"
  proof (rule ccontr)
    assume "\<not> - 64 \<le> e"
    then have "e + 1 \<le> - 63" by simp
    then have "pow2 (e + 1) \<le> pow2 (- 63)" by (rule pow2_mono)
    with b xge show False by simp
  qed
  define y where "y = of_int (round_half_even (x / pow2 (e - 52))) * pow2 (e - 52)"
  have f: "float64 x = Finite y"
    using float64_normal [OF a b] e_lo e_hi by (simp add: y_def)
  have err: "\<bar>y - x\<bar> \<le> pow2 (e - 53)"
    using rounded_bounds(3) [OF a b] by (simp add: y_def)
  have small: "pow2 (e - 53) < 1 / of_int p"
  proof -
    have "pow2 (e - 53) * 2 ^ 53 = pow2 e"
      using pow2_add [of "e - 53" 53] by (simp add: pow2_numeral)
    then have "pow2 (e - 53) * 2 ^ 53 * of_int p \<le> x * of_int p"
      using a p0 by (simp only: mult_le_cancel_right_pos)
    also have "\<dots> < 2 ^ 53" by (rule xlt)
    finally have "pow2 (e - 53) * of_int p * 2 ^ 53 < 1 * 2 ^ 53" by (simp add: mult.commute mult.left_commute)
    then have "pow2 (e - 53) * of_int p < 1" by (simp only: mult_less_cancel_right_pos zero_less_numeral zero_less_power)
    then show ?thesis using p0 by (simp add: pos_less_divide_eq)
  qed
  have lo: "of_int k < y"
  proof -
    have "of_int k \<le> x - 1 / of_int p" using inv by (simp add: xk)
    also have "\<dots> < x - pow2 (e - 53)" using small by simp
    also have "\<dots> \<le> y" using err by (simp add: abs_le_iff)
    finally show ?thesis .
  qed
  have hi: "y < of_int k + 1"
  proof -
    have "y \<le> x + pow2 (e - 53)" using err by (simp add: abs_le_iff)
    also have "\<dots> < x + 1 / of_int p" using small by simp
    also have "\<dots> \<le> of_int k + 1" using inv' by (simp add: xk)
    finally show ?thesis .
  qed
  have cy: "\<lceil>y\<rceil> = k + 1" using lo hi by (intro ceiling_unique) simp_all
  have "of_int k < x" using r(1) p0 by (simp add: xk)
  moreover have "x < of_int k + 1" using r(2) p0 by (simp add: xk)
  ultimately have cx: "\<lceil>x\<rceil> = k + 1" by (intro ceiling_unique) simp_all
  from f cy cx show ?thesis unfolding x_def by simp
qed

lemma integer_part_of_int [simp]: "integer_part (of_int c) = c"
  by (simp add: integer_part_def)

lemma integer_part_zero [simp]: "integer_part 0 = 0"
  by (simp add: integer_part_def)

lemma integer_part_numeral [simp]: "integer_part (numeral k) = numeral k"
  by (simp add: integer_part_def)

lemma Paginate_totalPages_exact:
  assumes "0 \<le> sint total1" "sint total1 < 2 ^ 53" "1 \<le> sint pageSize"
  shows "Paginate_totalPages pf total1 pageSize =
           word_of_int \<lceil>rat_of_int (sint total1) / rat_of_int (sint pageSize)\<rceil>"
proof -
  define t where "t = sint total1"
  define n where "n = sint pageSize"
  have n63: "n < 2 ^ 63" using sint_lt [of pageSize] by (simp add: n_def)
  have n1: "1 \<le> n" using assms(3) by (simp add: n_def)
  from float64_of_positive_int [OF n1 n63]
  obtain p where fp: "float64 (of_int n) = Finite (of_int p)"
    and p1: "1 \<le> p" and p63: "p \<le> 2 ^ 63"
    and small: "n < 2 ^ 53 \<longrightarrow> p = n" and large: "2 ^ 53 \<le> n \<longrightarrow> 2 ^ 53 \<le> p"
    by blast
  have t0: "0 \<le> t" and t53: "t < 2 ^ 53" using assms(1,2) by (simp_all add: t_def)
  have ft: "float64 (of_int t) = Finite (of_int t)" using t0 t53 by (rule float64_of_small_int)
  have p0: "(of_int p :: rat) \<noteq> 0" using p1 by simp
  have d: "float64_div (float64_of_int64 total1) (float64_of_int64 pageSize) =
      float64 (of_int t / of_int p)"
    using p0 by (simp add: float64_of_int64_def t_def [symmetric] n_def [symmetric] ft fp)
  show ?thesis
  proof (cases "t = 0")
    case True
    then show ?thesis
      unfolding Paginate_totalPages_def d t_def [symmetric] n_def [symmetric]
      by (simp add: float64_zero int64_of_float64_def)
  next
    case False
    with t0 have tpos: "0 < t" by simp
    from float64_quotient_ceiling [OF tpos t53 p1 p63]
    obtain y where fy: "float64 (of_int t / of_int p) = Finite y"
      and cy: "\<lceil>y\<rceil> = \<lceil>of_int t / of_int p :: rat\<rceil>" by blast
    define c where "c = \<lceil>of_int t / of_int n :: rat\<rceil>"
    have same: "\<lceil>of_int t / of_int p :: rat\<rceil> = c"
    proof (cases "n < 2 ^ 53")
      case True
      with small show ?thesis by (simp add: c_def)
    next
      case False
      with large have pl: "2 ^ 53 \<le> p" and nl: "2 ^ 53 \<le> n" by simp_all
      have "\<lceil>of_int t / of_int p :: rat\<rceil> = 1"
        using tpos t53 pl by (intro ceiling_unique) simp_all
      moreover have "\<lceil>of_int t / of_int n :: rat\<rceil> = 1"
        using tpos t53 nl by (intro ceiling_unique) simp_all
      ultimately show ?thesis by (simp add: c_def)
    qed
    have "(of_int t / of_int n :: rat) \<le> of_int t / 1"
      using tpos n1 by (intro divide_left_mono) simp_all
    then have "c \<le> t" by (simp add: c_def ceiling_le_iff)
    with t53 have c_hi: "c < 2 ^ 63" by simp
    have "(0::rat) \<le> of_int t / of_int n" using tpos n1 by simp
    then have "0 \<le> c" unfolding c_def by (simp add: zero_le_ceiling)
    then have c_lo: "- (2 ^ 63) \<le> c" by simp
    show ?thesis
      unfolding Paginate_totalPages_def d fy t_def [symmetric] n_def [symmetric]
      using c_lo c_hi by (simp add: cy same c_def [symmetric] int64_of_float64_def)
  qed
qed

lemma sint_clamped_page: "sint (clamped_page page) = max 1 (sint page)"
  by (simp add: clamped_page_def word_sless_alt max_def)

lemma sint_clamped_pageSize: "sint (clamped_pageSize pageSize) = max 1 (sint pageSize)"
  by (simp add: clamped_pageSize_def word_sle_eq max_def)

lemma sint_Paginate_offset:
  assumes "(sint (clamped_page page) - 1) * sint (clamped_pageSize pageSize) < 2 ^ 63"
  shows "sint (Paginate_offset page pageSize) =
           (sint (clamped_page page) - 1) * sint (clamped_pageSize pageSize)"
proof -
  let ?a = "clamped_page page" and ?b = "clamped_pageSize pageSize"
  have a1: "1 \<le> sint ?a" by (simp add: sint_clamped_page)
  have b1: "1 \<le> sint ?b" by (simp add: sint_clamped_pageSize)
  have a63: "sint ?a < 2 ^ 63" using sint_lt [of ?a] by simp
  have "sint (?a - 1) = signed_take_bit 63 (sint ?a - 1)"
    by (simp add: sint_word_ariths)
  also have "\<dots> = sint ?a - 1"
    using a1 a63 by (intro signed_take_bit_int_eq_self) simp_all
  finally have s: "sint (?a - 1) = sint ?a - 1" .
  have nonneg: "0 \<le> (sint ?a - 1) * sint ?b" using a1 b1 by simp
  have "sint ((?a - 1) * ?b) = signed_take_bit 63 (sint (?a - 1) * sint ?b)"
    by (simp add: sint_word_ariths)
  also have "\<dots> = (sint ?a - 1) * sint ?b"
    unfolding s using nonneg assms by (intro signed_take_bit_int_eq_self) simp_all
  finally show ?thesis by (simp add: Paginate_offset_def)
qed

text \<open>
  C4, as amended. When the count succeeds with a total from 0 to below \<open>2 ^ 53\<close>,
  \<open>Paginate\<close> stores the total, stores as \<open>totalPages\<close> the ceiling of the total divided by
  the clamped page size, and its second call is the data query with the clamped page
  size and the offset as arguments. The clamped page is the greater of 1 and \<open>page\<close>, the
  clamped page size the greater of 1 and \<open>pageSize\<close>; the offset is
  \<open>(clamped page - 1) * clamped page size\<close> in 64-bit arithmetic, which is that product
  whenever it is below \<open>2 ^ 63\<close>.
\<close>

theorem Paginate_clamps_and_counts_pages:
  assumes "QueryRow db (Paginate_count_query q) = Inr total1"
      and "0 \<le> sint total1" and "sint total1 < 2 ^ 53"
  shows "calls_made (Paginate pf db q tipe dest page pageSize total0 totalPages0 queryCol) =
           [QueryRowCall (Paginate_count_query q),
            QueryCall (Paginate_query q queryCol)
              [VInt (clamped_pageSize pageSize), VInt (Paginate_offset page pageSize)]]
       \<and> total_set (Paginate pf db q tipe dest page pageSize total0 totalPages0 queryCol) = total1
       \<and> sint (totalPages_set (Paginate pf db q tipe dest page pageSize total0 totalPages0 queryCol))
           = \<lceil>rat_of_int (sint total1) / rat_of_int (sint (clamped_pageSize pageSize))\<rceil>
       \<and> sint (clamped_page page) = max 1 (sint page)
       \<and> sint (clamped_pageSize pageSize) = max 1 (sint pageSize)
       \<and> Paginate_offset page pageSize = (clamped_page page - 1) * clamped_pageSize pageSize
       \<and> ((sint (clamped_page page) - 1) * sint (clamped_pageSize pageSize) < 2 ^ 63 \<longrightarrow>
            sint (Paginate_offset page pageSize) =
              (sint (clamped_page page) - 1) * sint (clamped_pageSize pageSize))"
proof -
  let ?n = "clamped_pageSize pageSize"
  define t where "t = sint total1"
  define n where "n = sint ?n"
  define c where "c = \<lceil>rat_of_int t / rat_of_int n\<rceil>"
  have n1: "1 \<le> n" by (simp add: n_def sint_clamped_pageSize)
  have t0: "0 \<le> t" and t53: "t < 2 ^ 53" using assms(2,3) by (simp_all add: t_def)
  have tp: "Paginate_totalPages pf total1 ?n = word_of_int c"
    unfolding c_def t_def n_def
    using assms(2,3) n1 [unfolded n_def] by (rule Paginate_totalPages_exact)
  have "rat_of_int t / rat_of_int n \<le> rat_of_int t / 1"
    using t0 n1 by (intro divide_left_mono) simp_all
  then have "c \<le> t" by (simp add: c_def ceiling_le_iff)
  with t53 have hi: "c < 2 ^ 63" by simp
  have "0 \<le> rat_of_int t / rat_of_int n" using t0 n1 by simp
  then have "0 \<le> c" unfolding c_def by (simp add: zero_le_ceiling)
  then have lo: "- (2 ^ 63) \<le> c" by simp
  have s: "sint (word_of_int c :: 64 word) = c"
    using lo hi by (simp add: sint_sbintrunc' signed_take_bit_int_eq_self)
  have r: "Paginate pf db q tipe dest page pageSize total0 totalPages0 queryCol =
      (case Query db (Paginate_query q queryCol) [VInt ?n, VInt (Paginate_offset page pageSize)] of
         Inl err \<Rightarrow>
           ([QueryRowCall (Paginate_count_query q),
             QueryCall (Paginate_query q queryCol) [VInt ?n, VInt (Paginate_offset page pageSize)]],
            dest, total1, word_of_int c, Some (Error err))
       | Inr (cols, rows) \<Rightarrow>
           ([QueryRowCall (Paginate_count_query q),
             QueryCall (Paginate_query q queryCol) [VInt ?n, VInt (Paginate_offset page pageSize)]],
            fst (Select_rows pf tipe cols rows dest), total1, word_of_int c,
            snd (Select_rows pf tipe cols rows dest)))"
    using assms(1) tp
    by (simp add: Paginate_def Let_def clamped_page_def [symmetric] clamped_pageSize_def [symmetric]
          Paginate_offset_def [symmetric] split: sum.splits prod.splits)
  have cm: "calls_made (Paginate pf db q tipe dest page pageSize total0 totalPages0 queryCol) =
           [QueryRowCall (Paginate_count_query q),
            QueryCall (Paginate_query q queryCol) [VInt ?n, VInt (Paginate_offset page pageSize)]]"
    unfolding r by (simp add: calls_made_def split: sum.splits prod.splits)
  have ts: "total_set (Paginate pf db q tipe dest page pageSize total0 totalPages0 queryCol) = total1"
    unfolding r by (simp add: total_set_def split: sum.splits prod.splits)
  have p: "totalPages_set (Paginate pf db q tipe dest page pageSize total0 totalPages0 queryCol) =
      word_of_int c"
    unfolding r by (simp add: totalPages_set_def split: sum.splits prod.splits)
  have "sint (totalPages_set (Paginate pf db q tipe dest page pageSize total0 totalPages0 queryCol)) = c"
    by (simp only: p s)
  then have sp: "sint (totalPages_set (Paginate pf db q tipe dest page pageSize total0 totalPages0 queryCol))
      = \<lceil>rat_of_int (sint total1) / rat_of_int (sint ?n)\<rceil>"
    by (simp only: c_def t_def n_def)
  have o: "(sint (clamped_page page) - 1) * sint ?n < 2 ^ 63 \<longrightarrow>
      sint (Paginate_offset page pageSize) = (sint (clamped_page page) - 1) * sint ?n"
    using sint_Paginate_offset [of page pageSize] by blast
  have d: "Paginate_offset page pageSize = (clamped_page page - 1) * ?n"
    by (simp add: Paginate_offset_def)
  from cm ts sp sint_clamped_page [of page] sint_clamped_pageSize [of pageSize] d o
  show ?thesis by blast
qed

theorem Paginate_clamps_and_counts_pages_witness:
  "QueryRow (counting_db 7) (Paginate_count_query (From indefinite User)) = Inr 7 \<and>
   0 \<le> sint (7 :: 64 word) \<and> sint (7 :: 64 word) < 2 ^ 53 \<and>
   calls_made (Paginate indefinite (counting_db 7) (From indefinite User) User [] 0 3 0 0 []) =
     [QueryRowCall ''SELECT COUNT(*) FROM users'',
      QueryCall ''SELECT * FROM users ORDER BY id LIMIT $1 OFFSET $2'' [VInt 3, VInt 0]] \<and>
   total_set (Paginate indefinite (counting_db 7) (From indefinite User) User [] 0 3 0 0 []) = 7 \<and>
   sint (totalPages_set (Paginate indefinite (counting_db 7) (From indefinite User) User [] 0 3 0 0 [])) = 3 \<and>
   calls_made (Paginate indefinite (counting_db 7) (From indefinite User) User [] 3 (- 5) 0 0 []) =
     [QueryRowCall ''SELECT COUNT(*) FROM users'',
      QueryCall ''SELECT * FROM users ORDER BY id LIMIT $1 OFFSET $2'' [VInt 1, VInt 2]] \<and>
   sint (totalPages_set (Paginate indefinite (counting_db 7) (From indefinite User) User [] 3 (- 5) 0 0 [])) = 7 \<and>
   (sint (clamped_page 3) - 1) * sint (clamped_pageSize (- 5)) < 2 ^ 63 \<and>
   sint (Paginate_offset 3 (- 5)) = 2"
proof -
  let ?q = "From indefinite User"
  have h1: "QueryRow (counting_db 7) (Paginate_count_query ?q) = Inr 7"
    by (simp add: counting_db_def)
  have h2: "0 \<le> sint (7 :: 64 word)" by simp
  have h3: "sint (7 :: 64 word) < 2 ^ 53" by simp
  have cq: "Paginate_count_query ?q = ''SELECT COUNT(*) FROM users''"
    by (simp add: Paginate_count_query_def From_def User_def ToLower_def isASCII_def lower_char_def)
  have pq: "Paginate_query ?q [] = ''SELECT * FROM users ORDER BY id LIMIT $1 OFFSET $2''"
    by (simp add: Paginate_query_def From_def User_def selectedCols_def ToLower_def isASCII_def lower_char_def)
  have ps: "clamped_pageSize 3 = 3" by (simp add: clamped_pageSize_def word_sle_eq)
  have po: "Paginate_offset 0 3 = 0"
    by (simp add: Paginate_offset_def clamped_page_def word_sless_alt)
  have ps': "clamped_pageSize (- 5) = 1" by (simp add: clamped_pageSize_def word_sle_eq)
  have po': "Paginate_offset 3 (- 5) = 2"
    by (simp add: Paginate_offset_def clamped_page_def clamped_pageSize_def word_sless_alt
          word_sle_eq)
  have c3: "\<lceil>rat_of_int 7 / rat_of_int 3\<rceil> = 3" by code_simp
  have c7: "\<lceil>rat_of_int 7 / rat_of_int 1\<rceil> = 7" by code_simp
  note a = Paginate_clamps_and_counts_pages [OF h1 h2 h3, where pf = indefinite and tipe = User
      and dest = "[]" and page = 0 and pageSize = 3 and ?total0.0 = 0 and ?totalPages0.0 = 0
      and queryCol = "[]"]
  note b = Paginate_clamps_and_counts_pages [OF h1 h2 h3, where pf = indefinite and tipe = User
      and dest = "[]" and page = 3 and pageSize = "- 5" and ?total0.0 = 0 and ?totalPages0.0 = 0
      and queryCol = "[]"]
  have s7: "sint (7 :: 64 word) = 7" and s3: "sint (3 :: 64 word) = 3"
    and s1: "sint (1 :: 64 word) = 1" by simp_all
  have a1: "calls_made (Paginate indefinite (counting_db 7) ?q User [] 0 3 0 0 []) =
     [QueryRowCall ''SELECT COUNT(*) FROM users'',
      QueryCall ''SELECT * FROM users ORDER BY id LIMIT $1 OFFSET $2'' [VInt 3, VInt 0]]"
    using a [THEN conjunct1] unfolding cq pq ps po .
  have a2: "total_set (Paginate indefinite (counting_db 7) ?q User [] 0 3 0 0 []) = 7"
    using a [THEN conjunct2, THEN conjunct1] .
  have a3: "sint (totalPages_set (Paginate indefinite (counting_db 7) ?q User [] 0 3 0 0 [])) = 3"
    using a [THEN conjunct2, THEN conjunct2, THEN conjunct1] unfolding ps s7 s3 c3 .
  have b1: "calls_made (Paginate indefinite (counting_db 7) ?q User [] 3 (- 5) 0 0 []) =
     [QueryRowCall ''SELECT COUNT(*) FROM users'',
      QueryCall ''SELECT * FROM users ORDER BY id LIMIT $1 OFFSET $2'' [VInt 1, VInt 2]]"
    using b [THEN conjunct1] unfolding cq pq ps' po' .
  have b3: "sint (totalPages_set (Paginate indefinite (counting_db 7) ?q User [] 3 (- 5) 0 0 [])) = 7"
    using b [THEN conjunct2, THEN conjunct2, THEN conjunct1] unfolding ps' s7 s1 c7 .
  have cp: "clamped_page 3 = 3" by (simp add: clamped_page_def word_sless_alt)
  have b4: "(sint (clamped_page 3) - 1) * sint (clamped_pageSize (- 5)) < 2 ^ 63"
    unfolding cp ps' by simp
  have b5: "sint (Paginate_offset 3 (- 5)) = 2"
    using b [THEN conjunct2, THEN conjunct2, THEN conjunct2, THEN conjunct2, THEN conjunct2,
        THEN conjunct2] b4
    unfolding cp ps' by simp
  from h1 h2 h3 a1 a2 a3 b1 b3 b4 b5 show ?thesis by blast
qed

text \<open>
  C4 as stated fails for a large total: for \<open>2 ^ 53 + 1\<close> rows and the page size 1 the
  ceiling of the quotient is \<open>2 ^ 53 + 1\<close>, and \<open>Paginate\<close> stores \<open>2 ^ 53\<close>, because
  \<open>float64(*total)\<close> rounds.
\<close>

theorem Paginate_totalPages_rounds_large_total:
  "0 \<le> sint (9007199254740993 :: 64 word) \<and>
   sint (totalPages_set
     (Paginate indefinite (counting_db 9007199254740993) (From indefinite User) User [] 1 1 0 0 []))
     = 9007199254740992 \<and>
   \<lceil>rat_of_int (sint (9007199254740993 :: 64 word)) / rat_of_int (sint (clamped_pageSize 1))\<rceil>
     = 9007199254740993"
proof -
  have f: "float64 (rat_of_int 9007199254740993) = Finite (rat_of_int 9007199254740992)"
    by code_simp
  have g: "float64 (rat_of_int 1) = Finite (rat_of_int 1)"
    by (rule float64_of_small_int) simp_all
  have h: "float64 (rat_of_int 9007199254740992 / rat_of_int 1) = Finite (rat_of_int 9007199254740992)"
    by code_simp
  have s: "sint (9007199254740993 :: 64 word) = 9007199254740993" by simp
  have s1: "sint (1 :: 64 word) = 1" by simp
  have ps: "clamped_pageSize 1 = 1" by (simp add: clamped_pageSize_def word_sle_eq)
  have i: "int64_of_float64 indefinite (Finite (rat_of_int 9007199254740992)) = 9007199254740992"
    by (simp add: int64_of_float64_def)
  have tp: "Paginate_totalPages indefinite 9007199254740993 1 = 9007199254740992"
    unfolding Paginate_totalPages_def float64_of_int64_def s s1 f g
    using h i by simp
  have "totalPages_set
     (Paginate indefinite (counting_db 9007199254740993) (From indefinite User) User [] 1 1 0 0 [])
     = 9007199254740992"
    by (simp add: Paginate_def counting_db_def totalPages_set_def Let_def tp word_sle_eq
          word_sless_alt)
  moreover have "\<lceil>rat_of_int 9007199254740993 / rat_of_int 1\<rceil> = 9007199254740993" by simp
  ultimately show ?thesis unfolding ps s s1 by simp
qed

end
